theory Spec2Isabelle
  imports Main "HOL-Library.AList" "HOL-Library.Multiset"
begin

section \<open>Python objects handled by the plumber\<close>

text \<open>
  The module \<^verbatim>\<open>_plumber.py\<close> works on arbitrary Python objects. The objects it creates
  or inspects are the constructors of \<open>pyval\<close>:
  \<^item> \<open>NoneV\<close> is \<^verbatim>\<open>None\<close>, \<open>Str s\<close> a string, \<open>Obj i\<close> any other object that is not
    callable and that the module never looks into (a number, say), \<open>Builtin n\<close> a
    callable object of a type of the language's own (a builtin function or method);
  \<^item> \<open>Function n d\<close> is an instance of \<^verbatim>\<open>types.FunctionType\<close> with name \<open>n\<close> and
    \<^verbatim>\<open>__doc__\<close> \<open>d\<close>; \<open>Property g s d\<close> an instance of exactly \<^verbatim>\<open>property\<close> with
    \<^verbatim>\<open>fget\<close>, \<^verbatim>\<open>fset\<close>, \<^verbatim>\<open>fdel\<close>;
  \<^item> \<open>Default a\<close> and \<open>Extend a\<close> are instances of \<^verbatim>\<open>default\<close> and \<^verbatim>\<open>extend\<close> whose
    field \<^verbatim>\<open>attr\<close> is \<open>a\<close> (the abstract base \<^verbatim>\<open>extensiondecor\<close> has no instances of
    its own here);
  \<^item> \<open>PlumbMethod f\<close> is a \<^verbatim>\<open>plumbmethod\<close> (a classmethod) around \<open>f\<close>,
    \<open>PlumbProperty g s d\<close> a \<^verbatim>\<open>plumbproperty\<close>;
  \<^item> \<open>ClassRef c\<close> is the class object named \<open>c\<close>, \<open>ClassTuple cs\<close> a tuple of the
    class objects named in \<open>cs\<close>; \<open>BoundMethod c f\<close> is the \<^verbatim>\<open>types.MethodType\<close> object
    that reading a classmethod around \<open>f\<close> through class \<open>c\<close> gives;
  \<^item> \<open>CLOSED\<close> is the class \<^verbatim>\<open>CLOSED\<close>, used as a sentinel;
  \<^item> \<open>MethodEntrance plumbattr next d\<close> is the closure \<^verbatim>\<open>_entrance\<close> built by
    \<^verbatim>\<open>entrance\<close> with its captured variables and its \<^verbatim>\<open>__doc__\<close>; \<open>GetEntrance\<close>,
    \<open>SetEntrance\<close> and \<open>DelEntrance\<close> are the closures \<^verbatim>\<open>get_entrance\<close>,
    \<^verbatim>\<open>set_entrance\<close> and \<^verbatim>\<open>del_entrance\<close>.
\<close>

datatype pyval =
    NoneV
  | Str string
  | Obj nat
  | Builtin string
  | Function string "string option"
  | Property pyval pyval pyval
  | Default pyval
  | Extend pyval
  | PlumbMethod pyval
  | PlumbProperty pyval pyval pyval
  | ClassRef string
  | ClassTuple "string list"
  | BoundMethod string pyval
  | CLOSED
  | MethodEntrance pyval pyval "string option"
  | GetEntrance pyval pyval
  | SetEntrance pyval pyval
  | DelEntrance pyval pyval

text \<open>
  The exceptions the module raises or lets through. \<^verbatim>\<open>TypeError\<close> is the spec's
  TypeConstraintError, \<^verbatim>\<open>AttributeError\<close> (raised by \<^verbatim>\<open>getattr\<close>) its
  MissingEndpointError.
\<close>

datatype error =
    PlumbingCollision string
  | TypeError
  | AttributeError string
  | IndexError

subsection \<open>Declaration markers\<close>

text \<open>\<^verbatim>\<open>isinstance(attr, extensiondecor)\<close>\<close>

fun is_extensiondecor :: "pyval \<Rightarrow> bool" where
  "is_extensiondecor (Default a) = True"
| "is_extensiondecor (Extend a) = True"
| "is_extensiondecor v = False"

text \<open>
  \<^verbatim>\<open>extensiondecor.unwrap\<close>: an object that is no marker is returned, a marker's
  \<^verbatim>\<open>attr\<close> is unwrapped in turn.
\<close>

fun unwrap :: "pyval \<Rightarrow> pyval" where
  "unwrap (Default a) = unwrap a"
| "unwrap (Extend a) = unwrap a"
| "unwrap v = v"

text \<open>
  \<^verbatim>\<open>default(attr)\<close> and \<^verbatim>\<open>extend(attr)\<close>: the inherited constructor
  \<^verbatim>\<open>extensiondecor.__init__\<close> stores \<^verbatim>\<open>self.unwrap(attr)\<close>.
\<close>

definition default_decor :: "pyval \<Rightarrow> pyval" where
  "default_decor attr = Default (unwrap attr)"

definition extend_decor :: "pyval \<Rightarrow> pyval" where
  "extend_decor attr = Extend (unwrap attr)"

text \<open>The field \<^verbatim>\<open>attr\<close> of a marker; other objects have none.\<close>

fun decor_attr :: "pyval \<Rightarrow> pyval option" where
  "decor_attr (Default a) = Some a"
| "decor_attr (Extend a) = Some a"
| "decor_attr v = None"




subsection \<open>Documentation strings\<close>

text \<open>
  What the module needs from outside: \<^verbatim>\<open>os.linesep\<close>, and the \<^verbatim>\<open>__doc__\<close> of the
  objects whose documentation the model does not track (for an instance of one of the
  marker classes it is the docstring of its class).
\<close>

record pyenv =
  linesep :: string
  other_doc :: "pyval \<Rightarrow> string option"

text \<open>
  \<^verbatim>\<open>obj.__doc__\<close>: a method object shows the docstring of its function; the accessor
  closures are defined without a docstring.
\<close>

fun doc_of :: "pyenv \<Rightarrow> pyval \<Rightarrow> string option" where
  "doc_of env (Function n d) = d"
| "doc_of env (BoundMethod c f) = doc_of env f"
| "doc_of env (MethodEntrance plumbattr nx d) = d"
| "doc_of env (GetEntrance plumbattr nx) = None"
| "doc_of env (SetEntrance plumbattr nx) = None"
| "doc_of env (DelEntrance plumbattr nx) = None"
| "doc_of env NoneV = None"
| "doc_of env v = other_doc env v"

text \<open>
  An environment for the runs on concrete inputs: \<open>/\<close> stands for \<^verbatim>\<open>os.linesep\<close>, so
  that it shows in a string, and no other object has a \<^verbatim>\<open>__doc__\<close>.
\<close>

definition example_env :: pyenv where
  "example_env = \<lparr>linesep = ''/'', other_doc = (\<lambda>v. None)\<rparr>"

text \<open>
  \<^verbatim>\<open>merge_doc(first, *args)\<close>. The function only reads \<^verbatim>\<open>__doc__\<close> of its arguments,
  so the model takes these values: \<open>first\<close> is \<^verbatim>\<open>first.__doc__\<close>, the list holds the
  \<^verbatim>\<open>__doc__\<close> of each of \<^verbatim>\<open>args\<close>. \<^verbatim>\<open>os.linesep.join((a, b))\<close> is \<open>a @ sep @ b\<close>.
\<close>

fun merge_doc :: "string \<Rightarrow> string option \<Rightarrow> string option list \<Rightarrow> string option" where
  "merge_doc sep first [] = first"
| "merge_doc sep first (a # args) =
     (case merge_doc sep a args of
        None \<Rightarrow> first
      | Some rest_doc \<Rightarrow>
          (case first of
             None \<Rightarrow> Some rest_doc
           | Some d \<Rightarrow> Some (d @ sep @ rest_doc)))"

subsection \<open>The chain compiler\<close>

text \<open>\<^verbatim>\<open>isinstance(x, plumbproperty)\<close> and \<^verbatim>\<open>isinstance(x, types.MethodType)\<close>\<close>

fun is_plumbproperty :: "pyval \<Rightarrow> bool" where
  "is_plumbproperty (PlumbProperty g s d) = True"
| "is_plumbproperty v = False"

fun is_methodtype :: "pyval \<Rightarrow> bool" where
  "is_methodtype (BoundMethod c f) = True"
| "is_methodtype v = False"

text \<open>
  \<^verbatim>\<open>entrance(name, pipe)\<close>. \<^verbatim>\<open>pipe.pop(0)\<close> on an empty list raises
  \<^verbatim>\<open>IndexError\<close>; the recursive call comes before the test of \<^verbatim>\<open>plumbattr\<close>, so its
  exception comes first.
\<close>

fun entrance :: "pyenv \<Rightarrow> string \<Rightarrow> pyval list \<Rightarrow> error + pyval" where
  "entrance env name [] = Inl IndexError"
| "entrance env name [end_point] = Inr end_point"
| "entrance env name (plumbattr # pipe) =
     (case entrance env name pipe of
        Inl e \<Rightarrow> Inl e
      | Inr nx \<Rightarrow>
          if is_plumbproperty plumbattr then
            Inr (Property (GetEntrance plumbattr nx) (SetEntrance plumbattr nx)
                   (DelEntrance plumbattr nx))
          else if is_methodtype plumbattr then
            Inr (MethodEntrance plumbattr nx
                   (merge_doc (linesep env) (doc_of env nx) [doc_of env plumbattr]))
          else Inl TypeError)"

subsection \<open>What the compiled closures do when called\<close>

text \<open>
  The attributes \<^verbatim>\<open>fget\<close>, \<^verbatim>\<open>fset\<close>, \<^verbatim>\<open>fdel\<close>: a \<^verbatim>\<open>property\<close> and a
  \<^verbatim>\<open>plumbproperty\<close> have them, for any other object of the model the read raises
  \<^verbatim>\<open>AttributeError\<close>.
\<close>

fun fget :: "pyval \<Rightarrow> error + pyval" where
  "fget (Property g s d) = Inr g"
| "fget (PlumbProperty g s d) = Inr g"
| "fget v = Inl (AttributeError ''fget'')"

fun fset :: "pyval \<Rightarrow> error + pyval" where
  "fset (Property g s d) = Inr s"
| "fset (PlumbProperty g s d) = Inr s"
| "fset v = Inl (AttributeError ''fset'')"

fun fdel :: "pyval \<Rightarrow> error + pyval" where
  "fdel (Property g s d) = Inr d"
| "fdel (PlumbProperty g s d) = Inr d"
| "fdel v = Inl (AttributeError ''fdel'')"

text \<open>
  \<open>dispatch callee args\<close> follows a call with positional arguments \<open>args\<close> through the
  closures of \<^verbatim>\<open>entrance\<close> and through method objects, up to the first callee that is
  neither. If that callee can be called (a function, a builtin, a class) it returns the
  callee and the arguments it is called with: what the callee (a function written by a
  plugin's author, say) does with them is outside the model. If it cannot be called
  (\<^verbatim>\<open>None\<close>, a string, a number, a marker, a classmethod or a property object), the
  call raises \<^verbatim>\<open>TypeError\<close>.
  \<^item> \<^verbatim>\<open>_entrance(self, *args, **kw)\<close> calls \<^verbatim>\<open>plumbattr(_next, self, *args, **kw)\<close>;
  \<^item> a method object of a classmethod calls its function with the class first;
  \<^item> \<^verbatim>\<open>get_entrance(self)\<close> calls \<^verbatim>\<open>plumbattr.fget(_next.fget, self)\<close>,
    \<^verbatim>\<open>set_entrance(self, val)\<close> calls \<^verbatim>\<open>plumbattr.fset(_next.fset, self, val)\<close>,
    \<^verbatim>\<open>del_entrance(self)\<close> calls \<^verbatim>\<open>plumbattr.fdel(_next.fdel, self)\<close>.
  A closure called with the wrong number of arguments raises \<^verbatim>\<open>TypeError\<close>. Keyword
  arguments are handed on unchanged by \<^verbatim>\<open>_entrance\<close> and are left out.
\<close>

function dispatch :: "pyval \<Rightarrow> pyval list \<Rightarrow> error + (pyval \<times> pyval list)" where
  "dispatch (MethodEntrance plumbattr nx d) args =
     (case args of
        [] \<Rightarrow> Inl TypeError
      | self # rest \<Rightarrow> dispatch plumbattr (nx # self # rest))"
| "dispatch (BoundMethod c f) args = dispatch f (ClassRef c # args)"
| "dispatch (GetEntrance plumbattr nx) args =
     (case args of
        [self] \<Rightarrow>
          (case fget plumbattr of
             Inl e \<Rightarrow> Inl e
           | Inr g \<Rightarrow>
               (case fget nx of
                  Inl e \<Rightarrow> Inl e
                | Inr ng \<Rightarrow> dispatch g [ng, self]))
      | _ \<Rightarrow> Inl TypeError)"
| "dispatch (SetEntrance plumbattr nx) args =
     (case args of
        [self, val] \<Rightarrow>
          (case fset plumbattr of
             Inl e \<Rightarrow> Inl e
           | Inr s \<Rightarrow>
               (case fset nx of
                  Inl e \<Rightarrow> Inl e
                | Inr ns \<Rightarrow> dispatch s [ns, self, val]))
      | _ \<Rightarrow> Inl TypeError)"
| "dispatch (DelEntrance plumbattr nx) args =
     (case args of
        [self] \<Rightarrow>
          (case fdel plumbattr of
             Inl e \<Rightarrow> Inl e
           | Inr dl \<Rightarrow>
               (case fdel nx of
                  Inl e \<Rightarrow> Inl e
                | Inr nd \<Rightarrow> dispatch dl [nd, self]))
      | _ \<Rightarrow> Inl TypeError)"
| "dispatch (Function n d) args = Inr (Function n d, args)"
| "dispatch (Builtin n) args = Inr (Builtin n, args)"
| "dispatch (ClassRef c) args = Inr (ClassRef c, args)"
| "dispatch CLOSED args = Inr (CLOSED, args)"
| "dispatch NoneV args = Inl TypeError"
| "dispatch (Str s) args = Inl TypeError"
| "dispatch (Obj i) args = Inl TypeError"
| "dispatch (ClassTuple cs) args = Inl TypeError"
| "dispatch (Property g s d) args = Inl TypeError"
| "dispatch (Default a) args = Inl TypeError"
| "dispatch (Extend a) args = Inl TypeError"
| "dispatch (PlumbMethod f) args = Inl TypeError"
| "dispatch (PlumbProperty g s d) args = Inl TypeError"
  by pat_completeness auto

lemma fget_smaller: "fget p = Inr g \<Longrightarrow> size g < size p"
  by (cases p) auto

lemma fset_smaller: "fset p = Inr g \<Longrightarrow> size g < size p"
  by (cases p) auto

lemma fdel_smaller: "fdel p = Inr g \<Longrightarrow> size g < size p"
  by (cases p) auto

termination dispatch
  by (relation "measure (\<lambda>(callee, args). size callee)")
    (auto dest: fget_smaller fset_smaller fdel_smaller)

section \<open>Classes, plugins and the metaclass\<close>

text \<open>
  A plugin is a class the plumber only reads: its name (its identity), its
  \<^verbatim>\<open>__doc__\<close> and the pairs of \<^verbatim>\<open>plugin.__dict__.items()\<close> in the order in which the
  dictionary yields them.
\<close>

record plugin =
  p_name :: string
  p_doc :: "string option"
  p_dict :: "(string \<times> pyval) list"

text \<open>
  What the class under construction holds in its own \<^verbatim>\<open>__dict__\<close> under
  \<^verbatim>\<open>__pipeline__\<close>: nothing (or \<^verbatim>\<open>None\<close>), one plugin, or a tuple of plugins.
\<close>

datatype pipeline_decl =
    NoPipeline
  | SinglePlugin plugin
  | PluginTuple "plugin list"

text \<open>
  The class under construction, as \<^verbatim>\<open>type.__init__\<close> leaves it.
  \<^item> \<open>c_dict\<close> is the class's own \<^verbatim>\<open>__dict__\<close>: what \<^verbatim>\<open>name in cls.__dict__\<close> tests,
    where \<^verbatim>\<open>setattr\<close> writes and where \<^verbatim>\<open>getattr\<close> looks first.
  \<^item> \<open>c_doc\<close> and \<open>c_pipeline\<close> are what the entries \<^verbatim>\<open>__doc__\<close> and \<^verbatim>\<open>__pipeline__\<close>
    of that dictionary hold, read as a string and as plugin classes: lines 168 to 174
    read them. A class may be given with these two entries left out of \<open>c_dict\<close>:
    before anything tests \<^verbatim>\<open>cls.__dict__\<close>, lines 171 and 174 have written both (see
    \<open>start\<close> below).
  \<^item> \<open>c_inherited\<close> is what attribute lookup finds in the base classes, \<open>c_meta\<close> what
    the metaclass answers when neither the class nor a base class has the name
    (\<^verbatim>\<open>mro\<close>, \<^verbatim>\<open>__call__\<close>, \<^verbatim>\<open>__subclasses__\<close>, ...), bound as \<^verbatim>\<open>getattr\<close> returns it.
  The names that the metaclass answers before the class's own \<^verbatim>\<open>__dict__\<close> is asked
  (\<^verbatim>\<open>__dict__\<close>, \<^verbatim>\<open>__name__\<close> and the like) are not names of the model.
\<close>

record pyclass =
  c_name :: string
  c_doc :: "string option"
  c_pipeline :: pipeline_decl
  c_dict :: "string \<rightharpoonup> pyval"
  c_inherited :: "string \<rightharpoonup> pyval"
  c_meta :: "string \<rightharpoonup> pyval"

text \<open>
  Reading an attribute through a class \<open>c\<close> runs the descriptor found: a classmethod
  (so a \<^verbatim>\<open>plumbmethod\<close>) gives a method object bound to \<open>c\<close>; a property and the
  other objects of the model give themselves (Python 2 wraps a function into an unbound
  method, which calls the function and shows its \<^verbatim>\<open>__doc__\<close>: the model keeps the
  function).
\<close>

fun descr_get :: "string \<Rightarrow> pyval \<Rightarrow> pyval" where
  "descr_get c (PlumbMethod f) = BoundMethod c f"
| "descr_get c v = v"

text \<open>\<^verbatim>\<open>getattr(cls, name)\<close> and \<^verbatim>\<open>setattr(cls, name, v)\<close>\<close>

definition class_getattr :: "pyclass \<Rightarrow> string \<Rightarrow> error + pyval" where
  "class_getattr c name =
     (case c_dict c name of
        Some v \<Rightarrow> Inr (descr_get (c_name c) v)
      | None \<Rightarrow>
          (case c_inherited c name of
             Some v \<Rightarrow> Inr (descr_get (c_name c) v)
           | None \<Rightarrow>
               (case c_meta c name of
                  Some v \<Rightarrow> Inr v
                | None \<Rightarrow> Inl (AttributeError name))))"

definition class_setattr :: "pyclass \<Rightarrow> string \<Rightarrow> pyval \<Rightarrow> pyclass" where
  "class_setattr c name v = c\<lparr>c_dict := (c_dict c)(name \<mapsto> v)\<rparr>"

subsection \<open>The pipeline collector\<close>

text \<open>
  The local state of \<^verbatim>\<open>Plumber.__init__\<close>: the class, the dictionary \<^verbatim>\<open>pipelines\<close>
  (an association list in insertion order) and the keys of the dictionary
  \<^verbatim>\<open>defaulted\<close>, whose values are never read.
\<close>

record collector =
  cls :: pyclass
  pipelines :: "(string \<times> pyval list) list"
  defaulted :: "string set"

text \<open>
  The list that \<^verbatim>\<open>pipelines.setdefault(name, [])\<close> returns, and the test
  \<^verbatim>\<open>name in pipelines and pipelines[name][-1] is CLOSED\<close> on a pipeline that is not
  empty.
\<close>

definition pipe_at :: "(string \<times> pyval list) list \<Rightarrow> string \<Rightarrow> pyval list" where
  "pipe_at pls name = (case map_of pls name of None \<Rightarrow> [] | Some p \<Rightarrow> p)"

definition is_closed :: "(string \<times> pyval list) list \<Rightarrow> string \<Rightarrow> bool" where
  "is_closed pls name = (case map_of pls name of None \<Rightarrow> False | Some p \<Rightarrow> last p = CLOSED)"

text \<open>
  Lines 182 to 184: \<^verbatim>\<open>setdefault\<close>, then \<^verbatim>\<open>CLOSED\<close> is appended unless it is the last
  entry already. \<^verbatim>\<open>setdefault\<close> followed by \<^verbatim>\<open>pipe.append(x)\<close> (lines 206 and 212, 214
  and 217) is one update of the association list.
\<close>

definition close_pipeline :: "string \<Rightarrow> collector \<Rightarrow> collector" where
  "close_pipeline name st =
     (let pipe = pipe_at (pipelines st) name in
      st\<lparr>pipelines :=
           AList.update name
             (if pipe = [] \<or> last pipe \<noteq> CLOSED then pipe @ [CLOSED] else pipe)
             (pipelines st)\<rparr>)"

definition append_entry :: "string \<Rightarrow> pyval \<Rightarrow> collector \<Rightarrow> collector" where
  "append_entry name x st =
     st\<lparr>pipelines := AList.update name (pipe_at (pipelines st) name @ [x]) (pipelines st)\<rparr>"

text \<open>\<^verbatim>\<open>isinstance(decor, plumbmethod)\<close>\<close>

fun is_plumbmethod :: "pyval \<Rightarrow> bool" where
  "is_plumbmethod (PlumbMethod f) = True"
| "is_plumbmethod v = False"

text \<open>
  The body of the inner loop, lines 181 to 217, for one pair \<^verbatim>\<open>name, decor\<close> of
  \<^verbatim>\<open>plugin.__dict__.items()\<close>. \<^verbatim>\<open>pipelines[name][-1]\<close> raises \<^verbatim>\<open>IndexError\<close> on an
  empty list. \<^verbatim>\<open>getattr(plugin, name)\<close> finds \<^verbatim>\<open>decor\<close> in the plugin's own
  \<^verbatim>\<open>__dict__\<close> and binds it to the plugin. \<^verbatim>\<open>name in cls.__dict__\<close> is
  \<open>name \<in> dom (c_dict (cls st))\<close>: in the states that \<^verbatim>\<open>Plumber.__init__\<close> reaches, the
  entries \<^verbatim>\<open>__pipeline__\<close> and \<^verbatim>\<open>__doc__\<close> are in \<open>c_dict\<close> (\<open>start\<close> below writes them).
\<close>

definition process_item :: "plugin \<Rightarrow> string \<times> pyval \<Rightarrow> collector \<Rightarrow> error + collector" where
  "process_item plugin item st =
     (let name = fst item; decor = snd item in
      if is_extensiondecor decor then
        (let st' = close_pipeline name st in
         case decor of
           Extend a \<Rightarrow>
             if name \<in> dom (c_dict (cls st')) \<and> name \<notin> defaulted st'
             then Inl (PlumbingCollision name)
             else Inr (st'\<lparr>cls := class_setattr (cls st') name a,
                            defaulted := defaulted st' - {name}\<rparr>)
         | Default a \<Rightarrow>
             if name \<notin> dom (c_dict (cls st'))
             then Inr (st'\<lparr>cls := class_setattr (cls st') name a,
                            defaulted := insert name (defaulted st')\<rparr>)
             else Inr st'
         | _ \<Rightarrow> Inr st')
      else if map_of (pipelines st) name = Some [] then Inl IndexError
      else if is_closed (pipelines st) name then Inl (PlumbingCollision name)
      else if is_plumbmethod decor then
        (let pipe = pipe_at (pipelines st) name in
         if pipe \<noteq> [] \<and> is_plumbproperty (last pipe) then Inl (PlumbingCollision name)
         else Inr (append_entry name (descr_get (p_name plugin) decor) st))
      else if is_plumbproperty decor then
        (let pipe = pipe_at (pipelines st) name in
         if pipe \<noteq> [] \<and> \<not> is_plumbproperty (last pipe) then Inl (PlumbingCollision name)
         else Inr (append_entry name decor st))
      else Inr st)"

text \<open>
  The inner loop over one plugin's items, and the outer loop over the plugins. An
  exception ends both. The step for \<^verbatim>\<open>zope.interface\<close> (lines 222 to 225) is modelled
  with \<^verbatim>\<open>ZOPE_INTERFACE_AVAILABLE = False\<close>, the value the module takes when the import
  fails: the step is skipped.
\<close>

fun process_items :: "plugin \<Rightarrow> (string \<times> pyval) list \<Rightarrow> collector \<Rightarrow> error + collector" where
  "process_items plugin [] st = Inr st"
| "process_items plugin (item # items) st =
     (case process_item plugin item st of
        Inl e \<Rightarrow> Inl e
      | Inr st' \<Rightarrow> process_items plugin items st')"

fun collect :: "plugin list \<Rightarrow> collector \<Rightarrow> error + collector" where
  "collect [] st = Inr st"
| "collect (plugin # plugins) st =
     (case process_items plugin (p_dict plugin) st of
        Inl e \<Rightarrow> Inl e
      | Inr st' \<Rightarrow> collect plugins st')"

subsection \<open>Endpoints and installation\<close>

text \<open>
  The body of the final loop, lines 228 to 245, for one pair \<^verbatim>\<open>name, pipe\<close>: drop the
  sentinel, append the endpoint that \<^verbatim>\<open>getattr(cls, name)\<close> finds, compile the chain
  and set it on the class.
\<close>

definition drop_closed :: "pyval list \<Rightarrow> pyval list" where
  "drop_closed pipe = (if last pipe = CLOSED then butlast pipe else pipe)"

definition install :: "pyenv \<Rightarrow> string \<times> pyval list \<Rightarrow> pyclass \<Rightarrow> error + pyclass" where
  "install env item c =
     (let name = fst item; pipe = snd item in
      if pipe = [] then Inl IndexError
      else
        (case class_getattr c name of
           Inl e \<Rightarrow> Inl e
         | Inr end_point \<Rightarrow>
             (case entrance env name (drop_closed pipe @ [end_point]) of
                Inl e \<Rightarrow> Inl e
              | Inr ent \<Rightarrow> Inr (class_setattr c name ent))))"

fun install_all :: "pyenv \<Rightarrow> (string \<times> pyval list) list \<Rightarrow> pyclass \<Rightarrow> error + pyclass" where
  "install_all env [] c = Inr c"
| "install_all env (item # items) c =
     (case install env item c of
        Inl e \<Rightarrow> Inl e
      | Inr c' \<Rightarrow> install_all env items c')"

subsection \<open>\<^verbatim>\<open>Plumber.__init__\<close>\<close>

text \<open>
  \<open>Plumber_init env ord c\<close> is \<^verbatim>\<open>Plumber.__init__\<close> on the class \<open>c\<close>. The order in
  which \<^verbatim>\<open>pipelines.items()\<close> yields the pairs is the dictionary's own: \<open>ord\<close> stands for
  it, and the theorems assume of it only that it permutes the pairs.
\<close>

definition plugins_of :: "pipeline_decl \<Rightarrow> plugin list" where
  "plugins_of decl =
     (case decl of NoPipeline \<Rightarrow> [] | SinglePlugin p \<Rightarrow> [p] | PluginTuple ps \<Rightarrow> ps)"

text \<open>
  The objects that the entries \<^verbatim>\<open>__pipeline__\<close> and \<^verbatim>\<open>__doc__\<close> hold after lines 171
  and 174: the tuple of the plugin classes, and the merged string or \<^verbatim>\<open>None\<close>.
\<close>

definition pipeline_val :: "plugin list \<Rightarrow> pyval" where
  "pipeline_val plugins = ClassTuple (map p_name plugins)"

definition doc_val :: "string option \<Rightarrow> pyval" where
  "doc_val d = (case d of None \<Rightarrow> NoneV | Some s \<Rightarrow> Str s)"

text \<open>
  Lines 170 to 178: \<^verbatim>\<open>__pipeline__\<close> is made a tuple, \<^verbatim>\<open>__doc__\<close> is set to the merged
  documentation, and the collector starts with no pipelines and no flags. Both
  assignments write the class's own \<^verbatim>\<open>__dict__\<close>. (Line 171 is skipped when
  \<^verbatim>\<open>__pipeline__\<close> is a tuple already; the entry is then in \<^verbatim>\<open>__dict__\<close> with that
  tuple, which is what the model writes.)
\<close>

definition start :: "pyenv \<Rightarrow> pyclass \<Rightarrow> collector" where
  "start env c =
     (let plugins = plugins_of (c_pipeline c);
          c1 = (class_setattr c ''__pipeline__'' (pipeline_val plugins))
                 \<lparr>c_pipeline := PluginTuple plugins\<rparr>;
          doc = merge_doc (linesep env) (c_doc c1) (rev (map p_doc plugins));
          c2 = (class_setattr c1 ''__doc__'' (doc_val doc))\<lparr>c_doc := doc\<rparr>
      in \<lparr>cls = c2, pipelines = [], defaulted = {}\<rparr>)"

definition Plumber_init ::
  "pyenv \<Rightarrow> ((string \<times> pyval list) list \<Rightarrow> (string \<times> pyval list) list) \<Rightarrow> pyclass
     \<Rightarrow> error + pyclass" where
  "Plumber_init env ord c =
     (if c_pipeline c = NoPipeline then Inr c
      else
        (case collect (plugins_of (c_pipeline c)) (start env c) of
           Inl e \<Rightarrow> Inl e
         | Inr st \<Rightarrow> install_all env (ord (pipelines st)) (cls st)))"

section \<open>Notions used in the statements\<close>

text \<open>
  \<open>same_at n st st'\<close>: the two collector states agree on everything kept under the
  name \<open>n\<close> (its pipeline, the class's own entry, the was-defaulted flag).
\<close>

definition same_at :: "string \<Rightarrow> collector \<Rightarrow> collector \<Rightarrow> bool" where
  "same_at n st st' \<longleftrightarrow>
     map_of (pipelines st') n = map_of (pipelines st) n \<and>
     c_dict (cls st') n = c_dict (cls st) n \<and>
     (n \<in> defaulted st' \<longleftrightarrow> n \<in> defaulted st)"

text \<open>
  A pipeline is well formed when it is not empty and its entries, the sentinel at its
  end apart, are all method objects or all \<^verbatim>\<open>plumbproperty\<close> objects; \<open>pipes_ok\<close> says so
  of every pipeline of the dictionary, whose keys are distinct.
\<close>

definition pipe_ok :: "pyval list \<Rightarrow> bool" where
  "pipe_ok p \<longleftrightarrow>
     p \<noteq> [] \<and> (list_all is_methodtype (drop_closed p) \<or> list_all is_plumbproperty (drop_closed p))"

definition pipes_ok :: "(string \<times> pyval list) list \<Rightarrow> bool" where
  "pipes_ok pls \<longleftrightarrow> distinct (map fst pls) \<and> (\<forall>n p. map_of pls n = Some p \<longrightarrow> pipe_ok p)"

text \<open>
  The spec's words for a merged documentation string: the descriptions that are there,
  in the given order, joined with the separator (none when there is none to join).
  \<open>present\<close> keeps the entries that are not \<^verbatim>\<open>None\<close>; \<open>join_docs sep\<close> is
  \<^verbatim>\<open>sep.join\<close> on a list that is not empty.
\<close>

fun present :: "'a option list \<Rightarrow> 'a list" where
  "present [] = []"
| "present (None # xs) = present xs"
| "present (Some x # xs) = x # present xs"

fun joined :: "string \<Rightarrow> string \<Rightarrow> string list \<Rightarrow> string" where
  "joined sep d [] = d"
| "joined sep d (x # xs) = d @ sep @ joined sep x xs"

fun join_docs :: "string \<Rightarrow> string list \<Rightarrow> string option" where
  "join_docs sep [] = None"
| "join_docs sep (d # ds) = Some (joined sep d ds)"

text \<open>
  What a plugin adds to the pipeline of the name \<open>n\<close> (lines 205 to 217): the method
  object of its \<^verbatim>\<open>plumbmethod\<close>, its \<^verbatim>\<open>plumbproperty\<close>, or nothing; and what a list of
  plugins adds, in the plugins' order.
\<close>

definition plumbing_entry :: "string \<Rightarrow> plugin \<Rightarrow> pyval list" where
  "plumbing_entry n p =
     (case map_of (p_dict p) n of
        None \<Rightarrow> []
      | Some decor \<Rightarrow>
          if is_plumbmethod decor then [descr_get (p_name p) decor]
          else if is_plumbproperty decor then [decor]
          else [])"

definition plumbing_entries :: "string \<Rightarrow> plugin list \<Rightarrow> pyval list" where
  "plumbing_entries n ps = concat (map (plumbing_entry n) ps)"

section \<open>Lemmas on the collector and the installer\<close>

lemma entrance_Cons:
  "pipe \<noteq> [] \<Longrightarrow> entrance env name (plumbattr # pipe) =
     (case entrance env name pipe of
        Inl e \<Rightarrow> Inl e
      | Inr nx \<Rightarrow>
          if is_plumbproperty plumbattr then
            Inr (Property (GetEntrance plumbattr nx) (SetEntrance plumbattr nx)
                   (DelEntrance plumbattr nx))
          else if is_methodtype plumbattr then
            Inr (MethodEntrance plumbattr nx
                   (merge_doc (linesep env) (doc_of env nx) [doc_of env plumbattr]))
          else Inl TypeError)"
  by (cases pipe) simp_all

lemma entrance_succeeds:
  "\<forall>x\<in>set q. is_methodtype x \<or> is_plumbproperty x \<Longrightarrow>
     \<exists>r. entrance env name (q @ [ep]) = Inr r"
proof (induction q)
  case Nil
  then show ?case by simp
next
  case (Cons x q)
  then obtain r where "entrance env name (q @ [ep]) = Inr r" by auto
  with Cons.prems show ?case by (auto simp: entrance_Cons)
qed

lemma map_of_close_pipeline:
  "map_of (pipelines (close_pipeline k st)) n =
     (if n = k then Some (if pipe_at (pipelines st) k = [] \<or> last (pipe_at (pipelines st) k) \<noteq> CLOSED
                          then pipe_at (pipelines st) k @ [CLOSED] else pipe_at (pipelines st) k)
      else map_of (pipelines st) n)"
  by (simp add: close_pipeline_def Let_def update_conv')

lemma close_pipeline_other [simp]:
  "cls (close_pipeline k st) = cls st" "defaulted (close_pipeline k st) = defaulted st"
  by (simp_all add: close_pipeline_def Let_def)

lemma map_of_append_entry:
  "map_of (pipelines (append_entry k x st)) n =
     (if n = k then Some (pipe_at (pipelines st) k @ [x]) else map_of (pipelines st) n)"
  by (simp add: append_entry_def update_conv')

lemma append_entry_other [simp]:
  "cls (append_entry k x st) = cls st" "defaulted (append_entry k x st) = defaulted st"
  by (simp_all add: append_entry_def)

lemma class_setattr_simps [simp]:
  "c_dict (class_setattr c k v) = (c_dict c)(k \<mapsto> v)"
  "c_inherited (class_setattr c k v) = c_inherited c"
  "c_meta (class_setattr c k v) = c_meta c"
  "c_name (class_setattr c k v) = c_name c"
  "c_doc (class_setattr c k v) = c_doc c"
  "c_pipeline (class_setattr c k v) = c_pipeline c"
  by (simp_all add: class_setattr_def)

lemma process_item_frame:
  assumes "process_item plugin item st = Inr st'" "fst item \<noteq> n"
  shows "same_at n st st'"
  using assms
  by (auto simp: process_item_def Let_def same_at_def map_of_close_pipeline map_of_append_entry
      split: if_splits pyval.splits)

lemma process_item_static:
  assumes "process_item plugin item st = Inr st'"
  shows "c_inherited (cls st') = c_inherited (cls st) \<and> c_name (cls st') = c_name (cls st)
    \<and> c_doc (cls st') = c_doc (cls st) \<and> c_pipeline (cls st') = c_pipeline (cls st)
    \<and> c_meta (cls st') = c_meta (cls st)"
  using assms
  by (auto simp: process_item_def Let_def 
      split: if_splits pyval.splits)



lemma same_at_refl: "same_at n st st"
  by (simp add: same_at_def)

lemma same_at_trans: "same_at n a b \<Longrightarrow> same_at n b c \<Longrightarrow> same_at n a c"
  by (simp add: same_at_def)

lemma process_items_append:
  "process_items p (xs @ ys) st =
     (case process_items p xs st of Inl e \<Rightarrow> Inl e | Inr st1 \<Rightarrow> process_items p ys st1)"
  by (induction xs arbitrary: st) (simp_all split: sum.splits)

lemma process_items_frame:
  "process_items p items st = Inr st' \<Longrightarrow> n \<notin> fst ` set items \<Longrightarrow> same_at n st st'"
proof (induction items arbitrary: st)
  case Nil
  then show ?case by (simp add: same_at_refl)
next
  case (Cons item items)
  from Cons.prems(1) obtain st1 where
    1: "process_item p item st = Inr st1" and 2: "process_items p items st1 = Inr st'"
    by (auto split: sum.splits)
  from Cons.prems(2) have "fst item \<noteq> n" and "n \<notin> fst ` set items" by auto
  then show ?case
    using process_item_frame [OF 1] Cons.IH [OF 2] same_at_trans by blast
qed

lemma process_items_static:
  "process_items p items st = Inr st' \<Longrightarrow>
     c_inherited (cls st') = c_inherited (cls st) \<and> c_name (cls st') = c_name (cls st)
     \<and> c_doc (cls st') = c_doc (cls st) \<and> c_pipeline (cls st') = c_pipeline (cls st)
     \<and> c_meta (cls st') = c_meta (cls st)"
proof (induction items arbitrary: st)
  case Nil
  then show ?case by simp
next
  case (Cons item items)
  from Cons.prems(1) obtain st1 where
    1: "process_item p item st = Inr st1" and 2: "process_items p items st1 = Inr st'"
    by (auto split: sum.splits)
  show ?case
    using process_item_static [OF 1] Cons.IH [OF 2] by simp
qed


lemma collect_static:
  "collect ps st = Inr st' \<Longrightarrow>
     c_inherited (cls st') = c_inherited (cls st) \<and> c_name (cls st') = c_name (cls st)
     \<and> c_doc (cls st') = c_doc (cls st) \<and> c_pipeline (cls st') = c_pipeline (cls st)
     \<and> c_meta (cls st') = c_meta (cls st)"
proof (induction ps arbitrary: st)
  case Nil
  then show ?case by simp
next
  case (Cons p ps)
  from Cons.prems(1) obtain st1 where
    1: "process_items p (p_dict p) st = Inr st1" and 2: "collect ps st1 = Inr st'"
    by (auto split: sum.splits)
  show ?case
    using process_items_static [OF 1] Cons.IH [OF 2] by simp
qed

lemma drop_closed_snoc:
  "drop_closed (p @ [x]) = (if x = CLOSED then p else p @ [x])"
  by (simp add: drop_closed_def)

lemma drop_closed_single: "drop_closed [x] = (if x = CLOSED then [] else [x])"
  by (simp add: drop_closed_def)

lemma drop_closed_open: "last p \<noteq> CLOSED \<Longrightarrow> drop_closed p = p"
  by (simp add: drop_closed_def)

lemma descr_get_plumbmethod: "is_plumbmethod d \<Longrightarrow> is_methodtype (descr_get c d)"
  by (cases d) simp_all

lemma methodtype_not_CLOSED: "is_methodtype x \<Longrightarrow> x \<noteq> CLOSED"
  by (cases x) simp_all

lemma plumbproperty_not_CLOSED: "is_plumbproperty x \<Longrightarrow> x \<noteq> CLOSED"
  by (cases x) simp_all

lemma pipe_at_ok:
  "pipes_ok pls \<Longrightarrow> pipe_at pls n \<noteq> [] \<Longrightarrow> pipe_ok (pipe_at pls n)"
  by (auto simp: pipes_ok_def pipe_at_def split: option.splits)

lemma pipe_ok_close:
  assumes "p = [] \<or> pipe_ok p"
  shows "pipe_ok (if p = [] \<or> last p \<noteq> CLOSED then p @ [CLOSED] else p)"
  using assms by (auto simp: pipe_ok_def drop_closed_snoc drop_closed_open)

lemma pipe_ok_append_method:
  assumes "p = [] \<or> pipe_ok p" "p \<noteq> [] \<longrightarrow> last p \<noteq> CLOSED \<and> \<not> is_plumbproperty (last p)"
    "is_methodtype x"
  shows "pipe_ok (p @ [x])"
proof (cases "p = []")
  case True
  with assms(3) show ?thesis
    by (simp add: pipe_ok_def drop_closed_single methodtype_not_CLOSED)
next
  case False
  with assms have ok: "pipe_ok p" and l: "last p \<noteq> CLOSED" and np: "\<not> is_plumbproperty (last p)"
    by auto
  from ok l have "list_all is_methodtype p \<or> list_all is_plumbproperty p"
    by (simp add: pipe_ok_def drop_closed_open)
  moreover from False np have "\<not> list_all is_plumbproperty p"
    by (auto simp: list_all_iff)
  ultimately have "list_all is_methodtype p" by blast
  with assms(3) show ?thesis
    by (simp add: pipe_ok_def drop_closed_snoc methodtype_not_CLOSED)
qed

lemma pipe_ok_append_property:
  assumes "p = [] \<or> pipe_ok p" "p \<noteq> [] \<longrightarrow> is_plumbproperty (last p)"
    "is_plumbproperty x"
  shows "pipe_ok (p @ [x])"
proof (cases "p = []")
  case True
  with assms(3) show ?thesis
    by (simp add: pipe_ok_def drop_closed_single plumbproperty_not_CLOSED)
next
  case False
  with assms have ok: "pipe_ok p" and lp: "is_plumbproperty (last p)"
    by auto
  from lp have l: "last p \<noteq> CLOSED" by (auto dest: plumbproperty_not_CLOSED)
  from ok l have "list_all is_methodtype p \<or> list_all is_plumbproperty p"
    by (simp add: pipe_ok_def drop_closed_open)
  moreover have "\<not> list_all is_methodtype p"
  proof
    assume "list_all is_methodtype p"
    with False have "is_methodtype (last p)" by (simp add: list_all_iff)
    with lp show False by (cases "last p") simp_all
  qed
  ultimately have "list_all is_plumbproperty p" by blast
  with assms(3) show ?thesis
    by (simp add: pipe_ok_def drop_closed_snoc plumbproperty_not_CLOSED)
qed

lemma pipes_ok_update:
  "pipes_ok pls \<Longrightarrow> pipe_ok v \<Longrightarrow> pipes_ok (AList.update k v pls)"
  by (simp add: pipes_ok_def distinct_update update_conv')

lemma pipe_at_empty_or_ok: "pipes_ok pls \<Longrightarrow> pipe_at pls n = [] \<or> pipe_ok (pipe_at pls n)"
  using pipe_at_ok by blast

lemma close_pipeline_inv:
  "pipes_ok (pipelines st) \<Longrightarrow> pipes_ok (pipelines (close_pipeline k st))"
  by (simp add: close_pipeline_def Let_def pipes_ok_update pipe_ok_close pipe_at_empty_or_ok)

lemma process_item_inv:
  assumes "pipes_ok (pipelines st)" "process_item plugin item st = Inr st'"
  shows "pipes_ok (pipelines st')"
proof (cases "is_extensiondecor (snd item)")
  case True
  with assms(2) have "pipelines st' = pipelines (close_pipeline (fst item) st)"
    by (auto simp: process_item_def Let_def split: pyval.splits if_splits)
  with assms(1) show ?thesis by (simp add: close_pipeline_inv)
next
  case False
  let ?n = "fst item" and ?d = "snd item"
  let ?p = "pipe_at (pipelines st) ?n"
  from assms(2) False have nc: "\<not> is_closed (pipelines st) ?n"
    and ne: "map_of (pipelines st) ?n \<noteq> Some []"
    by (auto simp: process_item_def Let_def split: if_splits)
  from nc have opn: "?p \<noteq> [] \<longrightarrow> last ?p \<noteq> CLOSED"
    by (auto simp: is_closed_def pipe_at_def split: option.splits)
  have eo: "?p = [] \<or> pipe_ok ?p" using assms(1) by (rule pipe_at_empty_or_ok)
  show ?thesis
  proof (cases "is_plumbmethod ?d")
    case True
    with assms(2) False nc ne have
      st': "st' = append_entry ?n (descr_get (p_name plugin) ?d) st"
      and np: "?p \<noteq> [] \<longrightarrow> \<not> is_plumbproperty (last ?p)"
      by (auto simp: process_item_def Let_def split: if_splits)
    have "pipe_ok (?p @ [descr_get (p_name plugin) ?d])"
      using eo opn np True by (intro pipe_ok_append_method) (auto simp: descr_get_plumbmethod)
    with assms(1) show ?thesis by (simp add: st' append_entry_def pipes_ok_update)
  next
    case nm: False
    show ?thesis
    proof (cases "is_plumbproperty ?d")
      case True
      with assms(2) False nc ne nm have
        st': "st' = append_entry ?n ?d st"
        and np: "?p \<noteq> [] \<longrightarrow> is_plumbproperty (last ?p)"
        by (auto simp: process_item_def Let_def split: if_splits)
      have "pipe_ok (?p @ [?d])"
        using eo np True by (intro pipe_ok_append_property) auto
      with assms(1) show ?thesis by (simp add: st' append_entry_def pipes_ok_update)
    next
      case False
      with assms(2) \<open>\<not> is_extensiondecor ?d\<close> nc ne nm have "st' = st"
        by (auto simp: process_item_def Let_def split: if_splits)
      with assms(1) show ?thesis by simp
    qed
  qed
qed


lemma process_items_inv:
  "pipes_ok (pipelines st) \<Longrightarrow> process_items p items st = Inr st' \<Longrightarrow> pipes_ok (pipelines st')"
proof (induction items arbitrary: st)
  case Nil
  then show ?case by simp
next
  case (Cons item items)
  from Cons.prems(2) obtain st1 where
    1: "process_item p item st = Inr st1" and 2: "process_items p items st1 = Inr st'"
    by (auto split: sum.splits)
  from process_item_inv [OF Cons.prems(1) 1] Cons.IH 2 show ?case by blast
qed


lemma collect_inv:
  "pipes_ok (pipelines st) \<Longrightarrow> collect ps st = Inr st' \<Longrightarrow> pipes_ok (pipelines st')"
proof (induction ps arbitrary: st)
  case Nil
  then show ?case by simp
next
  case (Cons p ps)
  from Cons.prems(2) obtain st1 where
    1: "process_items p (p_dict p) st = Inr st1" and 2: "collect ps st1 = Inr st'"
    by (auto split: sum.splits)
  from process_items_inv [OF Cons.prems(1) 1] Cons.IH 2 show ?case by blast
qed


lemma start_pipes_ok: "pipes_ok (pipelines (start env c))"
  by (simp add: start_def Let_def pipes_ok_def)


lemma class_getattr_cong:
  "c_dict c' n = c_dict c n \<Longrightarrow> c_inherited c' = c_inherited c \<Longrightarrow> c_meta c' = c_meta c \<Longrightarrow>
     c_name c' = c_name c \<Longrightarrow> class_getattr c' n = class_getattr c n"
  unfolding class_getattr_def by (auto split: option.splits)

lemma install_Inr:
  assumes "install env item c = Inr c'"
  shows "\<exists>ep ent. class_getattr c (fst item) = Inr ep \<and>
           entrance env (fst item) (drop_closed (snd item) @ [ep]) = Inr ent \<and>
           c' = class_setattr c (fst item) ent"
  using assms by (auto simp: install_def Let_def split: if_splits sum.splits)

lemma install_frame:
  "install env item c = Inr c' \<Longrightarrow> fst item \<noteq> n \<Longrightarrow> c_dict c' n = c_dict c n"
  by (auto dest!: install_Inr)

lemma install_static:
  "install env item c = Inr c' \<Longrightarrow>
     c_inherited c' = c_inherited c \<and> c_name c' = c_name c \<and> c_doc c' = c_doc c
     \<and> c_pipeline c' = c_pipeline c \<and> c_meta c' = c_meta c"
  by (auto dest!: install_Inr)

lemma install_all_frame:
  "install_all env items c = Inr c' \<Longrightarrow> n \<notin> fst ` set items \<Longrightarrow> c_dict c' n = c_dict c n"
proof (induction items arbitrary: c)
  case Nil
  then show ?case by simp
next
  case (Cons item items)
  from Cons.prems(1) obtain c1 where
    1: "install env item c = Inr c1" and 2: "install_all env items c1 = Inr c'"
    by (auto split: sum.splits)
  from Cons.prems(2) have "fst item \<noteq> n" "n \<notin> fst ` set items" by auto
  with install_frame [OF 1] Cons.IH [OF 2] show ?case by simp
qed

lemma install_all_result:
  assumes "install_all env items c = Inr c'" "distinct (map fst items)" "(n, pipe) \<in> set items"
  shows "\<exists>ep ent. class_getattr c n = Inr ep \<and>
           entrance env n (drop_closed pipe @ [ep]) = Inr ent \<and> c_dict c' n = Some ent"
  using assms
proof (induction items arbitrary: c)
  case Nil
  then show ?case by simp
next
  case (Cons item items)
  from Cons.prems(1) obtain c1 where
    1: "install env item c = Inr c1" and 2: "install_all env items c1 = Inr c'"
    by (auto split: sum.splits)
  show ?case
  proof (cases "item = (n, pipe)")
    case True
    with Cons.prems(2) have "n \<notin> fst ` set items" by auto
    from install_all_frame [OF 2 this] have "c_dict c' n = c_dict c1 n" .
    with install_Inr [OF 1] True show ?thesis by auto
  next
    case False
    with Cons.prems have mem: "(n, pipe) \<in> set items" and d: "distinct (map fst items)"
      by auto
    from mem have "n \<in> fst ` set items" by force
    with Cons.prems(2) have ne: "fst item \<noteq> n" by auto
    from Cons.IH [OF 2 d mem] obtain ep ent where
      g: "class_getattr c1 n = Inr ep" and
      e: "entrance env n (drop_closed pipe @ [ep]) = Inr ent" and r: "c_dict c' n = Some ent"
      by blast
    have "class_getattr c1 n = class_getattr c n"
      using install_frame [OF 1 ne] install_static [OF 1] by (intro class_getattr_cong) simp_all
    with g e r show ?thesis by auto
  qed
qed

lemma pipe_ok_entries:
  "pipe_ok p \<Longrightarrow> \<forall>x\<in>set (drop_closed p). is_methodtype x \<or> is_plumbproperty x"
  by (auto simp: pipe_ok_def list_all_iff)

lemma install_error:
  assumes "pipe_ok (snd item)" "install env item c = Inl e"
  shows "e = AttributeError (fst item) \<and> class_getattr c (fst item) = Inl (AttributeError (fst item))"
proof (cases "class_getattr c (fst item)")
  case (Inl e')
  then have "e' = AttributeError (fst item)"
    by (auto simp: class_getattr_def split: option.splits)
  with Inl assms show ?thesis by (auto simp: install_def Let_def pipe_ok_def)
next
  case (Inr ep)
  from entrance_succeeds [OF pipe_ok_entries [OF assms(1)]]
  obtain r where "entrance env (fst item) (drop_closed (snd item) @ [ep]) = Inr r" by blast
  with Inr assms show ?thesis by (auto simp: install_def Let_def pipe_ok_def)
qed

lemma install_all_missing:
  assumes "\<forall>item\<in>set items. pipe_ok (snd item)" "(n, p) \<in> set items"
    "class_getattr c n = Inl e"
  shows "\<exists>m\<in>fst ` set items. install_all env items c = Inl (AttributeError m)"
  using assms
proof (induction items arbitrary: c)
  case Nil
  then show ?case by simp
next
  case (Cons item items)
  show ?case
  proof (cases "install env item c")
    case (Inl e')
    with Cons.prems(1) have "e' = AttributeError (fst item)"
      using install_error by auto
    with Inl show ?thesis by simp
  next
    case (Inr c1)
    have ne: "fst item \<noteq> n"
    proof
      assume "fst item = n"
      with install_Inr [OF Inr] Cons.prems(3) show False by auto
    qed
    with Cons.prems(2) have mem: "(n, p) \<in> set items" by auto
    have "class_getattr c1 n = class_getattr c n"
      using install_frame [OF Inr ne] install_static [OF Inr] by (intro class_getattr_cong) simp_all
    with Cons.prems(3) have "class_getattr c1 n = Inl e" by simp
    from Cons.IH [OF _ mem this] Cons.prems(1) Inr show ?thesis by auto
  qed
qed

lemma pipes_ok_items: "pipes_ok pls \<Longrightarrow> \<forall>item\<in>set pls. pipe_ok (snd item)"
  by (auto simp: pipes_ok_def)

lemma filter_not_CLOSED:
  assumes "pipe_ok p"
  shows "filter (\<lambda>x. x \<noteq> CLOSED) p = drop_closed p"
proof -
  from assms have ne: "p \<noteq> []" by (simp add: pipe_ok_def)
  have all: "\<forall>x\<in>set (drop_closed p). x \<noteq> CLOSED"
    using pipe_ok_entries [OF assms] methodtype_not_CLOSED plumbproperty_not_CLOSED by blast
  show ?thesis
  proof (cases "last p = CLOSED")
    case True
    with ne have "p = butlast p @ [CLOSED]" by (metis append_butlast_last_id)
    then have "filter (\<lambda>x. x \<noteq> CLOSED) p = filter (\<lambda>x. x \<noteq> CLOSED) (butlast p)"
      by (metis (mono_tags, lifting) filter.simps(1,2) filter_append self_append_conv)
    with all True show ?thesis by (simp add: drop_closed_def)
  next
    case False
    with all show ?thesis by (simp add: drop_closed_def)
  qed
qed

lemma example_env_simps [simp]:
  "linesep example_env = ''/''" "other_doc example_env v = None"
  by (simp_all add: example_env_def)

lemma start_simps:
  "c_dict (cls (start env c)) =
     (c_dict c)(''__pipeline__'' \<mapsto> pipeline_val (plugins_of (c_pipeline c)),
                ''__doc__'' \<mapsto> doc_val (merge_doc (linesep env) (c_doc c)
                                     (rev (map p_doc (plugins_of (c_pipeline c))))))"
  "c_name (cls (start env c)) = c_name c"
  "c_inherited (cls (start env c)) = c_inherited c"
  "c_meta (cls (start env c)) = c_meta c"
  "c_pipeline (cls (start env c)) = PluginTuple (plugins_of (c_pipeline c))"
  "c_doc (cls (start env c)) =
     merge_doc (linesep env) (c_doc c) (rev (map p_doc (plugins_of (c_pipeline c))))"
  "pipelines (start env c) = []"
  "defaulted (start env c) = {}"
  by (simp_all add: start_def Let_def)

text \<open>The defining equations with which a run on a concrete input is evaluated.\<close>

lemmas eval_simps = Plumber_init_def start_def plugins_of_def pipeline_val_def doc_val_def
  process_item_def Let_def
  close_pipeline_def append_entry_def pipe_at_def is_closed_def class_setattr_def
  class_getattr_def install_def drop_closed_def default_decor_def extend_decor_def

text \<open>What happens under one name while a plugin's items are processed.\<close>

lemma split_items:
  assumes "map_of items n = Some v" "distinct (map fst items)"
  shows "\<exists>pre post. items = pre @ (n, v) # post \<and> n \<notin> fst ` set pre \<and> n \<notin> fst ` set post"
proof -
  from assms(1) have "(n, v) \<in> set items" by (rule map_of_SomeD)
  then obtain pre post where s: "items = pre @ (n, v) # post" by (auto dest: split_list)
  with assms(2) have "n \<notin> fst ` set pre \<and> n \<notin> fst ` set post" by auto
  with s show ?thesis by blast
qed

lemma process_items_at:
  assumes "map_of items n = Some d" "distinct (map fst items)"
    "process_items p items st = Inr st'"
  shows "\<exists>st1 st2. same_at n st st1 \<and> process_item p (n, d) st1 = Inr st2 \<and> same_at n st2 st'"
proof -
  from split_items [OF assms(1,2)] obtain pre post where
    s: "items = pre @ (n, d) # post" and a: "n \<notin> fst ` set pre" and b: "n \<notin> fst ` set post"
    by blast
  from assms(3) s obtain st1 where 1: "process_items p pre st = Inr st1"
    and r: "process_items p ((n, d) # post) st1 = Inr st'"
    by (auto simp: process_items_append split: sum.splits)
  from r obtain st2 where 2: "process_item p (n, d) st1 = Inr st2"
    and 3: "process_items p post st2 = Inr st'"
    by (auto split: sum.splits)
  from process_items_frame [OF 1 a] 2 process_items_frame [OF 3 b] show ?thesis by blast
qed






lemma process_item_PlumbMethod:
  "process_item p (n, PlumbMethod f) st = Inr st' \<Longrightarrow>
     c_dict (cls st') n = c_dict (cls st) n \<and> (n \<in> defaulted st' \<longleftrightarrow> n \<in> defaulted st) \<and>
     map_of (pipelines st') n = Some (pipe_at (pipelines st) n @ [BoundMethod (p_name p) f])"
  by (auto simp: process_item_def Let_def map_of_append_entry split: if_splits)

lemma Plumber_init_Inr:
  assumes "Plumber_init env ord c = Inr c'" "c_pipeline c \<noteq> NoPipeline"
  shows "\<exists>st. collect (plugins_of (c_pipeline c)) (start env c) = Inr st \<and>
           install_all env (ord (pipelines st)) (cls st) = Inr c'"
  using assms by (auto simp: Plumber_init_def split: sum.splits)

lemma installed_value:
  assumes "collect ps (start env c) = Inr st"
    "install_all env (ord (pipelines st)) (cls st) = Inr c'"
    "mset (ord (pipelines st)) = mset (pipelines st)"
    "map_of (pipelines st) n = Some pipe"
  shows "\<exists>ep ent. class_getattr (cls st) n = Inr ep \<and>
           entrance env n (drop_closed pipe @ [ep]) = Inr ent \<and> c_dict c' n = Some ent"
proof -
  have "pipes_ok (pipelines st)"
    using collect_inv [OF start_pipes_ok assms(1)] .
  then have "distinct (map fst (pipelines st))" by (simp add: pipes_ok_def)
  moreover from assms(3) have "mset (map fst (ord (pipelines st))) = mset (map fst (pipelines st))"
    by (metis mset_map)
  ultimately have d: "distinct (map fst (ord (pipelines st)))"
    by (metis mset_eq_imp_distinct_iff)
  from assms(4) have "(n, pipe) \<in> set (pipelines st)" by (rule map_of_SomeD)
  with assms(3) have m: "(n, pipe) \<in> set (ord (pipelines st))"
    by (metis mset_eq_setD)
  from install_all_result [OF assms(2) d m] show ?thesis .
qed


lemma collect_two:
  "collect [A, B] st = Inr st' \<longleftrightarrow>
     (\<exists>sA. process_items A (p_dict A) st = Inr sA \<and> process_items B (p_dict B) sA = Inr st')"
  by (auto split: sum.splits)





lemma two_methods_collect:
  assumes dA: "distinct (map fst (p_dict A))" and dB: "distinct (map fst (p_dict B))"
    and mA: "map_of (p_dict A) n = Some (PlumbMethod fA)"
    and mB: "map_of (p_dict B) n = Some (PlumbMethod fB)"
    and p0: "map_of (pipelines s0) n = None"
    and co: "collect [A, B] s0 = Inr st"
  shows "map_of (pipelines st) n = Some [BoundMethod (p_name A) fA, BoundMethod (p_name B) fB] \<and>
         c_dict (cls st) n = c_dict (cls s0) n"
proof -
  from co obtain sA where A: "process_items A (p_dict A) s0 = Inr sA"
    and B: "process_items B (p_dict B) sA = Inr st"
    unfolding collect_two by blast
  from process_items_at [OF mA dA A] obtain st1 st2 where
    1: "same_at n s0 st1" and 2: "process_item A (n, PlumbMethod fA) st1 = Inr st2"
    and 3: "same_at n st2 sA"
    by blast
  from 1 p0 have "pipe_at (pipelines st1) n = []" by (simp add: same_at_def pipe_at_def)
  with process_item_PlumbMethod [OF 2] 1 3 have
    sA: "map_of (pipelines sA) n = Some [BoundMethod (p_name A) fA]"
      "c_dict (cls sA) n = c_dict (cls s0) n"
    by (simp_all add: same_at_def)
  from process_items_at [OF mB dB B] obtain st3 st4 where
    4: "same_at n sA st3" and 5: "process_item B (n, PlumbMethod fB) st3 = Inr st4"
    and 6: "same_at n st4 st"
    by blast
  from 4 sA have "pipe_at (pipelines st3) n = [BoundMethod (p_name A) fA]"
    by (simp add: same_at_def pipe_at_def)
  with process_item_PlumbMethod [OF 5] 4 6 sA show ?thesis
    by (simp add: same_at_def)
qed

text \<open>The entries of a pipeline follow the order of the plugins.\<close>

lemma own_dict_after_start:
  "c_dict (cls (start env c)) n = None \<longleftrightarrow>
     c_dict c n = None \<and> n \<noteq> ''__pipeline__'' \<and> n \<noteq> ''__doc__''"
  by (simp add: start_simps)

lemma pipe_at_same: "same_at n st st' \<Longrightarrow> pipe_at (pipelines st') n = pipe_at (pipelines st) n"
  by (simp add: same_at_def pipe_at_def)

lemma pipe_at_close_pipeline:
  "pipe_at (pipelines (close_pipeline n st)) n =
     (if pipe_at (pipelines st) n = [] \<or> last (pipe_at (pipelines st) n) \<noteq> CLOSED
      then pipe_at (pipelines st) n @ [CLOSED] else pipe_at (pipelines st) n)"
  by (simp add: pipe_at_def map_of_close_pipeline)

lemma pipe_at_append_entry:
  "pipe_at (pipelines (append_entry n x st)) n = pipe_at (pipelines st) n @ [x]"
  by (simp add: pipe_at_def map_of_append_entry)

lemma extensiondecor_not_plumb:
  "is_extensiondecor d \<Longrightarrow> \<not> is_plumbmethod d \<and> \<not> is_plumbproperty d"
  by (cases d) simp_all

lemma process_item_entries:
  assumes "process_item p (n, d) st = Inr st'"
  shows "filter (\<lambda>x. x \<noteq> CLOSED) (pipe_at (pipelines st') n) =
         filter (\<lambda>x. x \<noteq> CLOSED) (pipe_at (pipelines st) n) @
           (if is_plumbmethod d then [descr_get (p_name p) d]
            else if is_plumbproperty d then [d] else [])"
proof (cases "is_extensiondecor d")
  case True
  with assms have "pipelines st' = pipelines (close_pipeline n st)"
    by (auto simp: process_item_def Let_def split: pyval.splits if_splits)
  with True show ?thesis
    by (simp add: pipe_at_close_pipeline extensiondecor_not_plumb)
next
  case False
  show ?thesis
  proof (cases "is_plumbmethod d")
    case True
    with assms False have "st' = append_entry n (descr_get (p_name p) d) st"
      by (auto simp: process_item_def Let_def split: if_splits)
    with True show ?thesis
      using methodtype_not_CLOSED [OF descr_get_plumbmethod [OF True], of "p_name p"]
      by (simp add: pipe_at_append_entry)
  next
    case nm: False
    show ?thesis
    proof (cases "is_plumbproperty d")
      case True
      with assms False nm have "st' = append_entry n d st"
        by (auto simp: process_item_def Let_def split: if_splits)
      with True nm show ?thesis
        using plumbproperty_not_CLOSED [OF True]
        by (simp add: pipe_at_append_entry)
    next
      case False
      with assms \<open>\<not> is_extensiondecor d\<close> nm have "st' = st"
        by (auto simp: process_item_def Let_def split: if_splits)
      with False nm show ?thesis by simp
    qed
  qed
qed

lemma process_items_entries:
  assumes "process_items p (p_dict p) st = Inr st'" "distinct (map fst (p_dict p))"
  shows "filter (\<lambda>x. x \<noteq> CLOSED) (pipe_at (pipelines st') n) =
         filter (\<lambda>x. x \<noteq> CLOSED) (pipe_at (pipelines st) n) @ plumbing_entry n p"
proof (cases "map_of (p_dict p) n")
  case None
  then have "n \<notin> fst ` set (p_dict p)" by (simp add: map_of_eq_None_iff)
  from process_items_frame [OF assms(1) this] None show ?thesis
    by (simp add: pipe_at_same plumbing_entry_def)
next
  case (Some d)
  from process_items_at [OF Some assms(2,1)] obtain st1 st2 where
    1: "same_at n st st1" and 2: "process_item p (n, d) st1 = Inr st2" and 3: "same_at n st2 st'"
    by blast
  from process_item_entries [OF 2] pipe_at_same [OF 1] pipe_at_same [OF 3] Some
  show ?thesis by (simp add: plumbing_entry_def)
qed

lemma collect_entries:
  assumes "collect ps st = Inr st'" "\<forall>p\<in>set ps. distinct (map fst (p_dict p))"
  shows "filter (\<lambda>x. x \<noteq> CLOSED) (pipe_at (pipelines st') n) =
         filter (\<lambda>x. x \<noteq> CLOSED) (pipe_at (pipelines st) n) @ plumbing_entries n ps"
  using assms
proof (induction ps arbitrary: st)
  case Nil
  then show ?case by (simp add: plumbing_entries_def)
next
  case (Cons p ps)
  from Cons.prems(1) obtain st1 where
    1: "process_items p (p_dict p) st = Inr st1" and 2: "collect ps st1 = Inr st'"
    by (auto split: sum.splits)
  from Cons.prems(2) have d: "distinct (map fst (p_dict p))"
    and ds: "\<forall>p\<in>set ps. distinct (map fst (p_dict p))" by auto
  from process_items_entries [OF 1 d, of n] Cons.IH [OF 2 ds] show ?case
    by (simp add: plumbing_entries_def)
qed

lemma plumbing_entries_append:
  "plumbing_entries n (xs @ ys) = plumbing_entries n xs @ plumbing_entries n ys"
  by (simp add: plumbing_entries_def)

lemma plumbing_entries_none:
  "\<forall>p\<in>set ps. plumbing_entry n p = [] \<Longrightarrow> plumbing_entries n ps = []"
  by (induction ps) (simp_all add: plumbing_entries_def)

lemma installed_chain:
  assumes dk: "\<forall>p\<in>set ps. distinct (map fst (p_dict p))"
    and cp: "c_pipeline c \<noteq> NoPipeline" "plugins_of (c_pipeline c) = ps"
    and perm: "\<And>xs. mset (ord xs) = mset xs"
    and ok: "Plumber_init env ord c = Inr c'"
    and ne: "plumbing_entries n ps \<noteq> []"
  shows "\<exists>st ep ent. collect ps (start env c) = Inr st \<and> class_getattr (cls st) n = Inr ep \<and>
           entrance env n (plumbing_entries n ps @ [ep]) = Inr ent \<and> c_dict c' n = Some ent"
proof -
  from Plumber_init_Inr [OF ok cp(1)] cp(2) obtain st where
    co: "collect ps (start env c) = Inr st" and
    ia: "install_all env (ord (pipelines st)) (cls st) = Inr c'"
    by auto
  have pk: "pipes_ok (pipelines st)"
    using collect_inv [OF start_pipes_ok co] .
  from collect_entries [OF co dk, of n] have
    f: "filter (\<lambda>x. x \<noteq> CLOSED) (pipe_at (pipelines st) n) = plumbing_entries n ps"
    by (simp add: start_simps pipe_at_def)
  with ne have "pipe_at (pipelines st) n \<noteq> []" by auto
  then obtain pipe where pl: "map_of (pipelines st) n = Some pipe"
    and pa: "pipe_at (pipelines st) n = pipe"
    by (auto simp: pipe_at_def split: option.splits)
  from pk pl have "pipe_ok pipe" by (auto simp: pipes_ok_def)
  from filter_not_CLOSED [OF this] f pa have dc: "drop_closed pipe = plumbing_entries n ps"
    by simp
  from installed_value [where ord = ord, OF co ia perm pl] dc co show ?thesis by auto
qed

text \<open>A name that nobody answers makes \<^verbatim>\<open>Plumber.__init__\<close> raise.\<close>

lemma missing_endpoint_raises:
  assumes "c_pipeline c \<noteq> NoPipeline"
    and "collect (plugins_of (c_pipeline c)) (start env c) = Inr st"
    and "(n, pipe) \<in> set (pipelines st)"
    and "class_getattr (cls st) n = Inl e"
    and "mset (ord (pipelines st)) = mset (pipelines st)"
  shows "\<exists>m\<in>fst ` set (pipelines st). Plumber_init env ord c = Inl (AttributeError m)"
proof -
  have ok: "pipes_ok (pipelines st)"
    using collect_inv [OF start_pipes_ok assms(2)] .
  from assms(5) have s: "set (ord (pipelines st)) = set (pipelines st)"
    by (rule mset_eq_setD)
  with ok have 1: "\<forall>item\<in>set (ord (pipelines st)). pipe_ok (snd item)"
    using pipes_ok_items by blast
  from s assms(3) have 2: "(n, pipe) \<in> set (ord (pipelines st))" by simp
  from install_all_missing [OF 1 2 assms(4)] s assms(1,2) show ?thesis
    by (simp add: Plumber_init_def)
qed

text \<open>\<^verbatim>\<open>merge_doc\<close> against the spec's words.\<close>

lemma present_append: "present (xs @ ys) = present xs @ present ys"
  by (induction xs rule: present.induct) simp_all

lemma joined_snoc: "joined sep d (ds @ [b]) = joined sep d ds @ sep @ b"
  by (induction ds arbitrary: d) simp_all

lemma merge_doc_join: "merge_doc sep first args = join_docs sep (present (first # args))"
proof (induction args arbitrary: first)
  case Nil
  show ?case by (cases first) simp_all
next
  case (Cons a args)
  show ?case
  proof (cases first)
    case None
    then show ?thesis by (simp add: Cons.IH split: option.splits)
  next
    case (Some d)
    show ?thesis
    proof (cases "present (a # args)")
      case Nil
      with Some show ?thesis by (simp add: Cons.IH)
    next
      case (Cons x xs)
      with Some show ?thesis by (simp add: Cons.IH)
    qed
  qed
qed

lemma join_nested:
  "join_docs sep (present [join_docs sep L, y]) = join_docs sep (L @ present [y])"
proof (cases L)
  case Nil
  then show ?thesis by simp
next
  case (Cons d ds)
  then show ?thesis by (cases y) (simp_all add: joined_snoc)
qed

section \<open>Declaration markers: properties\<close>

lemma unwrap_not_decor: "\<not> is_extensiondecor (unwrap v)"
  by (induction v) simp_all

lemma unwrap_idem: "unwrap (unwrap v) = unwrap v"
  by (induction v) simp_all

lemma default_decor_funpow:
  "(default_decor ^^ Suc n) x = Default (unwrap x)"
  by (induction n) (simp_all add: default_decor_def unwrap_idem)



lemma unwrap_decor [simp]:
  "unwrap (default_decor x) = unwrap x" "unwrap (extend_decor x) = unwrap x"
  by (simp_all add: default_decor_def extend_decor_def unwrap_idem)

lemma extend_decor_funpow:
  "(extend_decor ^^ Suc n) x = Extend (unwrap x)"
  by (induction n) (simp_all add: extend_decor_def unwrap_idem)

lemma nested_markers_attr:
  "decor_attr (foldr (\<lambda>b v. if b then default_decor v else extend_decor v) (b # bs) x)
     = Some (unwrap x)"
proof -
  have "unwrap (foldr (\<lambda>b v. if b then default_decor v else extend_decor v) bs x) = unwrap x"
    by (induction bs) simp_all
  then show ?thesis by (simp add: default_decor_def extend_decor_def)
qed

text \<open>
  C9. Unwrapping goes down to the innermost object that is no marker. Both marker
  classes share the constructor: \<^verbatim>\<open>default(x)\<close> and \<^verbatim>\<open>extend(x)\<close> store
  \<^verbatim>\<open>unwrap(x)\<close>, which is never a marker, so a marker built from a marker is the marker
  built from what the inner one wraps, whichever of \<^verbatim>\<open>default\<close> and \<^verbatim>\<open>extend\<close> is
  outside or inside, and a nest of any depth and any mix of the two stores the innermost
  object.
\<close>

theorem nested_default_unwraps:
  "decor_attr (default_decor (default_decor x)) = decor_attr (default_decor x) \<and>
   default_decor (default_decor x) = default_decor x \<and>
   default_decor (extend_decor x) = default_decor x \<and>
   decor_attr ((default_decor ^^ Suc n) x) = Some (unwrap x) \<and>
   \<not> is_extensiondecor (unwrap x) \<and>
   decor_attr (extend_decor (extend_decor x)) = decor_attr (extend_decor x) \<and>
   extend_decor (extend_decor x) = extend_decor x \<and>
   extend_decor (default_decor x) = extend_decor x \<and>
   decor_attr ((extend_decor ^^ Suc n) x) = Some (unwrap x) \<and>
   decor_attr (default_decor x) = Some (unwrap x) \<and>
   decor_attr (extend_decor x) = Some (unwrap x) \<and>
   unwrap (Default x) = unwrap x \<and> unwrap (Extend x) = unwrap x \<and>
   decor_attr (foldr (\<lambda>b v. if b then default_decor v else extend_decor v) (b # bs) x)
     = Some (unwrap x)"
  using nested_markers_attr [of b bs x]
  by (simp add: default_decor_funpow extend_decor_funpow unwrap_not_decor unwrap_idem
      default_decor_def extend_decor_def del: funpow.simps foldr.simps)

theorem nested_default_unwraps_witness:
  "decor_attr (default_decor (default_decor (Obj 1))) = Some (Obj 1) \<and>
   decor_attr (default_decor (Obj 1)) = Some (Obj 1) \<and>
   decor_attr (extend_decor (default_decor (Obj 1))) = Some (Obj 1) \<and>
   decor_attr (extend_decor (extend_decor (Obj 1))) = Some (Obj 1) \<and>
   decor_attr (default_decor (Extend (Default (Obj 1)))) = Some (Obj 1) \<and>
   decor_attr (extend_decor (default_decor (extend_decor (Obj 1)))) = Some (Obj 1)"
  using nested_default_unwraps [of "Obj 1" 0 True "[]"]
    nested_default_unwraps [of "Extend (Default (Obj 1))" 0 True "[]"]
    nested_default_unwraps [of "Obj 1" 0 False "[True, False]"]
  by (simp add: default_decor_def extend_decor_def)

section \<open>The collector and the installer: properties\<close>

text \<open>
  C1. Let \<^verbatim>\<open>Plumber.__init__\<close> return on a class that declares the plugins \<open>ps\<close>, in
  any number. For every name \<open>n\<close> that some plugin plumbs, the class then holds under
  \<open>n\<close> the chain compiled from the plugins' entries in the plugins' order, followed by
  the endpoint that \<^verbatim>\<open>getattr(cls, n)\<close> found. If \<open>A\<close> is the first plugin in the order
  that plumbs \<open>n\<close>, and it does so with a \<^verbatim>\<open>plumbmethod\<close>, the class holds the closure
  whose \<^verbatim>\<open>plumbattr\<close> is \<open>A\<close>'s method object and whose \<^verbatim>\<open>_next\<close> is the compiled chain
  of the later plugins' entries and the endpoint; called on an instance, the closure
  hands the call to \<open>A\<close>'s function alone, with the arguments \<open>A\<close>, \<^verbatim>\<open>_next\<close>, the
  instance and the rest: whether \<^verbatim>\<open>_next\<close> runs is up to that function. For the
  plugins \<open>[A, B]\<close>, both with a \<^verbatim>\<open>plumbmethod\<close> under \<open>n\<close>, \<^verbatim>\<open>_next\<close> is the compiled
  chain of \<open>[B's method object, endpoint]\<close>. The last part says the same of
  \<^verbatim>\<open>entrance\<close> on any pipeline that starts with a method object.
\<close>

theorem first_plugin_is_outermost:
  assumes dk: "\<forall>p\<in>set ps. distinct (map fst (p_dict p))"
    and cp: "c_pipeline c \<noteq> NoPipeline" "plugins_of (c_pipeline c) = ps"
    and perm: "\<And>xs. mset (ord xs) = mset xs"
    and ok: "Plumber_init env ord c = Inr c'"
  shows
    "(plumbing_entries n ps \<noteq> [] \<longrightarrow>
        (\<exists>st ep ent.
           collect ps (start env c) = Inr st \<and> class_getattr (cls st) n = Inr ep \<and>
           entrance env n (plumbing_entries n ps @ [ep]) = Inr ent \<and>
           c_dict c' n = Some ent)) \<and>
     (ps = pre @ A # post \<and> (\<forall>p\<in>set pre. plumbing_entry n p = []) \<and>
      map_of (p_dict A) n = Some (PlumbMethod fA) \<longrightarrow>
        (\<exists>st ep nx d.
           collect ps (start env c) = Inr st \<and> class_getattr (cls st) n = Inr ep \<and>
           entrance env n (plumbing_entries n post @ [ep]) = Inr nx \<and>
           c_dict c' n = Some (MethodEntrance (BoundMethod (p_name A) fA) nx d) \<and>
           (\<forall>self args.
              dispatch (MethodEntrance (BoundMethod (p_name A) fA) nx d) (self # args) =
              dispatch fA (ClassRef (p_name A) # nx # self # args)))) \<and>
     (ps = [A, B] \<and> map_of (p_dict A) n = Some (PlumbMethod fA) \<and>
      map_of (p_dict B) n = Some (PlumbMethod fB) \<longrightarrow>
        (\<exists>ep nx d.
           class_getattr (cls (start env c)) n = Inr ep \<and>
           entrance env n [BoundMethod (p_name B) fB, ep] = Inr nx \<and>
           c_dict c' n = Some (MethodEntrance (BoundMethod (p_name A) fA) nx d) \<and>
           (\<forall>self args.
              dispatch (MethodEntrance (BoundMethod (p_name A) fA) nx d) (self # args) =
              dispatch fA (ClassRef (p_name A) # nx # self # args)))) \<and>
     (is_methodtype m \<and> rest \<noteq> [] \<and> entrance env n (m # rest) = Inr r \<longrightarrow>
        (\<exists>nx d. entrance env n rest = Inr nx \<and> r = MethodEntrance m nx d \<and>
           (\<forall>self args. dispatch r (self # args) = dispatch m (nx # self # args))))"
proof -
  have outer: "\<exists>st ep nx d.
           collect ps (start env c) = Inr st \<and> class_getattr (cls st) n = Inr ep \<and>
           entrance env n (plumbing_entries n post' @ [ep]) = Inr nx \<and>
           c_dict c' n = Some (MethodEntrance (BoundMethod (p_name A') f) nx d) \<and>
           (\<forall>self args.
              dispatch (MethodEntrance (BoundMethod (p_name A') f) nx d) (self # args) =
              dispatch f (ClassRef (p_name A') # nx # self # args))"
    if sp: "ps = pre' @ A' # post'" and nb: "\<forall>p\<in>set pre'. plumbing_entry n p = []"
      and mA: "map_of (p_dict A') n = Some (PlumbMethod f)"
    for pre' A' post' f
  proof -
    from mA have eA: "plumbing_entry n A' = [BoundMethod (p_name A') f]"
      by (simp add: plumbing_entry_def)
    with sp nb have es: "plumbing_entries n ps =
        BoundMethod (p_name A') f # plumbing_entries n post'"
      by (simp add: plumbing_entries_append plumbing_entries_none)
         (simp add: plumbing_entries_def)
    then have "plumbing_entries n ps \<noteq> []" by simp
    from installed_chain [OF dk cp perm ok this] obtain st ep ent where
      co: "collect ps (start env c) = Inr st" and g: "class_getattr (cls st) n = Inr ep"
      and e: "entrance env n (plumbing_entries n ps @ [ep]) = Inr ent"
      and r: "c_dict c' n = Some ent"
      by blast
    from e es have e': "entrance env n
        (BoundMethod (p_name A') f # (plumbing_entries n post' @ [ep])) = Inr ent"
      by simp
    then obtain nx where nx: "entrance env n (plumbing_entries n post' @ [ep]) = Inr nx"
      by (cases "entrance env n (plumbing_entries n post' @ [ep])")
         (auto simp: entrance_Cons)
    with e' have "ent = MethodEntrance (BoundMethod (p_name A') f) nx
        (merge_doc (linesep env) (doc_of env nx) [doc_of env (BoundMethod (p_name A') f)])"
      by (simp add: entrance_Cons)
    with co g nx r show ?thesis by auto
  qed
  show ?thesis
  proof (intro conjI impI)
    assume "plumbing_entries n ps \<noteq> []"
    from installed_chain [OF dk cp perm ok this]
    show "\<exists>st ep ent.
           collect ps (start env c) = Inr st \<and> class_getattr (cls st) n = Inr ep \<and>
           entrance env n (plumbing_entries n ps @ [ep]) = Inr ent \<and>
           c_dict c' n = Some ent" .
  next
    assume "ps = pre @ A # post \<and> (\<forall>p\<in>set pre. plumbing_entry n p = []) \<and>
      map_of (p_dict A) n = Some (PlumbMethod fA)"
    then show "\<exists>st ep nx d.
           collect ps (start env c) = Inr st \<and> class_getattr (cls st) n = Inr ep \<and>
           entrance env n (plumbing_entries n post @ [ep]) = Inr nx \<and>
           c_dict c' n = Some (MethodEntrance (BoundMethod (p_name A) fA) nx d) \<and>
           (\<forall>self args.
              dispatch (MethodEntrance (BoundMethod (p_name A) fA) nx d) (self # args) =
              dispatch fA (ClassRef (p_name A) # nx # self # args))"
      using outer [of pre A post fA] by blast
  next
    assume h: "ps = [A, B] \<and> map_of (p_dict A) n = Some (PlumbMethod fA) \<and>
      map_of (p_dict B) n = Some (PlumbMethod fB)"
    then have sp: "ps = [] @ A # [B]" and mA: "map_of (p_dict A) n = Some (PlumbMethod fA)"
      and mB: "map_of (p_dict B) n = Some (PlumbMethod fB)" by simp_all
    from outer [OF sp _ mA] obtain st ep nx d where
      co: "collect ps (start env c) = Inr st" and g: "class_getattr (cls st) n = Inr ep"
      and nx: "entrance env n (plumbing_entries n [B] @ [ep]) = Inr nx"
      and r: "c_dict c' n = Some (MethodEntrance (BoundMethod (p_name A) fA) nx d)"
      by auto
    from dk h have dA: "distinct (map fst (p_dict A))" and dB: "distinct (map fst (p_dict B))"
      by simp_all
    have p0: "map_of (pipelines (start env c)) n = None" by (simp add: start_simps)
    from co h have co2: "collect [A, B] (start env c) = Inr st" by simp
    from two_methods_collect [OF dA dB mA mB p0 co2] have
      cd: "c_dict (cls st) n = c_dict (cls (start env c)) n" by simp
    from collect_static [OF co] cd have "class_getattr (cls st) n = class_getattr (cls (start env c)) n"
      by (intro class_getattr_cong) simp_all
    with g have g': "class_getattr (cls (start env c)) n = Inr ep" by simp
    from mB have "plumbing_entries n [B] = [BoundMethod (p_name B) fB]"
      by (simp add: plumbing_entries_def plumbing_entry_def)
    with nx g' r show "\<exists>ep nx d.
           class_getattr (cls (start env c)) n = Inr ep \<and>
           entrance env n [BoundMethod (p_name B) fB, ep] = Inr nx \<and>
           c_dict c' n = Some (MethodEntrance (BoundMethod (p_name A) fA) nx d) \<and>
           (\<forall>self args.
              dispatch (MethodEntrance (BoundMethod (p_name A) fA) nx d) (self # args) =
              dispatch fA (ClassRef (p_name A) # nx # self # args))"
      by auto
  next
    assume h: "is_methodtype m \<and> rest \<noteq> [] \<and> entrance env n (m # rest) = Inr r"
    then have np: "\<not> is_plumbproperty m" by (cases m) simp_all
    from h obtain nx where nx: "entrance env n rest = Inr nx"
      by (cases "entrance env n rest") (auto simp: entrance_Cons)
    with h np have "r = MethodEntrance m nx
        (merge_doc (linesep env) (doc_of env nx) [doc_of env m])"
      by (auto simp: entrance_Cons)
    with nx show "\<exists>nx d. entrance env n rest = Inr nx \<and> r = MethodEntrance m nx d \<and>
        (\<forall>self args. dispatch r (self # args) = dispatch m (nx # self # args))"
      by simp
  qed
qed

theorem first_plugin_is_outermost_witness:
  "Plumber_init example_env id
     \<lparr>c_name = ''C'', c_doc = None,
      c_pipeline = PluginTuple
        [\<lparr>p_name = ''A'', p_doc = None, p_dict = [(''m'', PlumbMethod (Function ''fA'' None))]\<rparr>,
         \<lparr>p_name = ''X'', p_doc = None, p_dict = [(''other'', Obj 5)]\<rparr>,
         \<lparr>p_name = ''B'', p_doc = None, p_dict = [(''m'', PlumbMethod (Function ''fB'' None))]\<rparr>],
      c_dict = [''m'' \<mapsto> Function ''ep'' None], c_inherited = Map.empty, c_meta = Map.empty\<rparr>
   = Inr \<lparr>c_name = ''C'', c_doc = None,
      c_pipeline = PluginTuple
        [\<lparr>p_name = ''A'', p_doc = None, p_dict = [(''m'', PlumbMethod (Function ''fA'' None))]\<rparr>,
         \<lparr>p_name = ''X'', p_doc = None, p_dict = [(''other'', Obj 5)]\<rparr>,
         \<lparr>p_name = ''B'', p_doc = None, p_dict = [(''m'', PlumbMethod (Function ''fB'' None))]\<rparr>],
      c_dict = [''__pipeline__'' \<mapsto> ClassTuple [''A'', ''X'', ''B''], ''__doc__'' \<mapsto> NoneV,
        ''m'' \<mapsto>
        MethodEntrance (BoundMethod ''A'' (Function ''fA'' None))
          (MethodEntrance (BoundMethod ''B'' (Function ''fB'' None)) (Function ''ep'' None) None)
          None],
      c_inherited = Map.empty, c_meta = Map.empty\<rparr> \<and>
   plumbing_entries ''m''
     [\<lparr>p_name = ''A'', p_doc = None, p_dict = [(''m'', PlumbMethod (Function ''fA'' None))]\<rparr>,
      \<lparr>p_name = ''X'', p_doc = None, p_dict = [(''other'', Obj 5)]\<rparr>,
      \<lparr>p_name = ''B'', p_doc = None, p_dict = [(''m'', PlumbMethod (Function ''fB'' None))]\<rparr>]
   = [BoundMethod ''A'' (Function ''fA'' None), BoundMethod ''B'' (Function ''fB'' None)] \<and>
   dispatch
     (MethodEntrance (BoundMethod ''A'' (Function ''fA'' None))
        (MethodEntrance (BoundMethod ''B'' (Function ''fB'' None)) (Function ''ep'' None) None)
        None)
     [Obj 7, Obj 8]
   = Inr (Function ''fA'' None,
          [ClassRef ''A'',
           MethodEntrance (BoundMethod ''B'' (Function ''fB'' None)) (Function ''ep'' None) None,
           Obj 7, Obj 8])"
  (is "Plumber_init ?env ?ord ?c = Inr ?r \<and> plumbing_entries _ ?ps = _ \<and> dispatch ?X _ = _")
proof -
  let ?A = "\<lparr>p_name = ''A'', p_doc = None, p_dict = [(''m'', PlumbMethod (Function ''fA'' None))]\<rparr>"
  let ?Mid = "\<lparr>p_name = ''X'', p_doc = None, p_dict = [(''other'', Obj 5)]\<rparr>"
  let ?B = "\<lparr>p_name = ''B'', p_doc = None, p_dict = [(''m'', PlumbMethod (Function ''fB'' None))]\<rparr>"
  have p: "\<And>xs. mset (?ord xs) = mset xs" by simp
  have e: "Plumber_init ?env ?ord ?c = Inr ?r"
    by (simp add: eval_simps fun_eq_iff)
  have pe: "plumbing_entries ''m'' ?ps
      = [BoundMethod ''A'' (Function ''fA'' None), BoundMethod ''B'' (Function ''fB'' None)]"
    by (simp add: plumbing_entries_def plumbing_entry_def)
  have dk: "\<forall>p\<in>set ?ps. distinct (map fst (p_dict p))"
    and cp: "c_pipeline ?c \<noteq> NoPipeline" "plugins_of (c_pipeline ?c) = ?ps"
    and sp: "?ps = [] @ ?A # [?Mid, ?B]"
    and nb: "\<forall>p\<in>set []. plumbing_entry ''m'' p = []"
    and mA: "map_of (p_dict ?A) ''m'' = Some (PlumbMethod (Function ''fA'' None))"
    by (simp_all add: plugins_of_def)
  note T = first_plugin_is_outermost [where ord = ?ord and n = "''m''" and pre = "[]"
      and A = ?A and post = "[?Mid, ?B]" and fA = "Function ''fA'' None",
      OF dk cp p e, THEN conjunct2, THEN conjunct1, THEN mp, OF conjI [OF sp conjI [OF nb mA]]]
  from T obtain st ep nx d where
    1: "c_dict ?r ''m'' = Some (MethodEntrance (BoundMethod (p_name ?A) (Function ''fA'' None)) nx d)"
    and 2: "\<forall>self args.
       dispatch (MethodEntrance (BoundMethod (p_name ?A) (Function ''fA'' None)) nx d) (self # args) =
       dispatch (Function ''fA'' None) (ClassRef (p_name ?A) # nx # self # args)"
    by blast
  from 1 have x: "MethodEntrance (BoundMethod (p_name ?A) (Function ''fA'' None)) nx d = ?X"
    by simp
  from 2 [rule_format, of "Obj 7" "[Obj 8]"] have "dispatch ?X [Obj 7, Obj 8] =
      dispatch (Function ''fA'' None) (ClassRef (p_name ?A) # nx # [Obj 7, Obj 8])"
    unfolding x .
  moreover from x have "nx = MethodEntrance (BoundMethod ''B'' (Function ''fB'' None))
      (Function ''ep'' None) None" by simp
  ultimately have "dispatch ?X [Obj 7, Obj 8] = Inr (Function ''fA'' None,
          [ClassRef ''A'',
           MethodEntrance (BoundMethod ''B'' (Function ''fB'' None)) (Function ''ep'' None) None,
           Obj 7, Obj 8])" by simp
  with e pe show ?thesis by (intro conjI)
qed



text \<open>
  C3. The docstring of \<^verbatim>\<open>plumbmethod\<close> (lines 77 to 79) and the comment at lines 232 to
  237 say where an endpoint comes from: an \<^verbatim>\<open>extend\<close> or a \<^verbatim>\<open>default\<close> of a plugin, the
  class itself, or a base class. Line 238 asks \<^verbatim>\<open>getattr(cls, name)\<close>, which after these
  also asks the metaclass. For a name that only the metaclass answers (\<^verbatim>\<open>mro\<close> below:
  nothing is installed, the class's body and its base classes have no such attribute),
  \<^verbatim>\<open>Plumber.__init__\<close> raises nothing: it returns the class with a chain around the
  metaclass's builtin, and what is missing shows only when the chain is called. For a
  name that nobody answers, \<^verbatim>\<open>Plumber.__init__\<close> does raise \<^verbatim>\<open>AttributeError\<close>
  (\<open>missing_endpoint_raises\<close>).
\<close>

theorem metaclass_attribute_passes_for_endpoint:
  "c_dict \<lparr>c_name = ''C'', c_doc = None,
      c_pipeline = SinglePlugin \<lparr>p_name = ''P'', p_doc = None,
         p_dict = [(''mro'', PlumbMethod (Function ''f'' None))]\<rparr>,
      c_dict = Map.empty, c_inherited = Map.empty,
      c_meta = [''mro'' \<mapsto> Builtin ''mro'']\<rparr> ''mro'' = None \<and>
   c_inherited \<lparr>c_name = ''C'', c_doc = None,
      c_pipeline = SinglePlugin \<lparr>p_name = ''P'', p_doc = None,
         p_dict = [(''mro'', PlumbMethod (Function ''f'' None))]\<rparr>,
      c_dict = Map.empty, c_inherited = Map.empty,
      c_meta = [''mro'' \<mapsto> Builtin ''mro'']\<rparr> ''mro'' = None \<and>
   Plumber_init example_env id
     \<lparr>c_name = ''C'', c_doc = None,
      c_pipeline = SinglePlugin \<lparr>p_name = ''P'', p_doc = None,
         p_dict = [(''mro'', PlumbMethod (Function ''f'' None))]\<rparr>,
      c_dict = Map.empty, c_inherited = Map.empty,
      c_meta = [''mro'' \<mapsto> Builtin ''mro'']\<rparr>
   = Inr \<lparr>c_name = ''C'', c_doc = None,
      c_pipeline = PluginTuple [\<lparr>p_name = ''P'', p_doc = None,
         p_dict = [(''mro'', PlumbMethod (Function ''f'' None))]\<rparr>],
      c_dict = [''__pipeline__'' \<mapsto> ClassTuple [''P''], ''__doc__'' \<mapsto> NoneV,
                ''mro'' \<mapsto> MethodEntrance (BoundMethod ''P'' (Function ''f'' None))
                              (Builtin ''mro'') None],
      c_inherited = Map.empty,
      c_meta = [''mro'' \<mapsto> Builtin ''mro'']\<rparr> \<and>
   dispatch (MethodEntrance (BoundMethod ''P'' (Function ''f'' None)) (Builtin ''mro'') None)
     [Obj 0]
   = Inr (Function ''f'' None, [ClassRef ''P'', Builtin ''mro'', Obj 0])"
  by (simp add: eval_simps)

text \<open>
  C4. In every state the collector ends in, the entries of a pipeline other than the
  sentinel are all method objects (of \<^verbatim>\<open>plumbmethod\<close> declarations) or all
  \<^verbatim>\<open>plumbproperty\<close> objects. The two steps that would mix them raise
  \<^verbatim>\<open>PlumbingCollision\<close>: a \<^verbatim>\<open>plumbmethod\<close> declaration when the last entry is a
  \<^verbatim>\<open>plumbproperty\<close>, and a \<^verbatim>\<open>plumbproperty\<close> declaration when the last entry is a
  method object.
\<close>

theorem pipeline_never_mixes:
  "(collect ps (start env c) = Inr st \<and> map_of (pipelines st) n = Some p \<longrightarrow>
      list_all is_methodtype (filter (\<lambda>x. x \<noteq> CLOSED) p) \<or>
      list_all is_plumbproperty (filter (\<lambda>x. x \<noteq> CLOSED) p)) \<and>
   (pipe_at (pipelines st0) n \<noteq> [] \<and> is_plumbproperty (last (pipe_at (pipelines st0) n)) \<longrightarrow>
      process_item plugin (n, PlumbMethod f) st0 = Inl (PlumbingCollision n)) \<and>
   (pipe_at (pipelines st0) n \<noteq> [] \<and> is_methodtype (last (pipe_at (pipelines st0) n)) \<longrightarrow>
      process_item plugin (n, PlumbProperty g s d) st0 = Inl (PlumbingCollision n))"
proof (intro conjI impI)
  assume a: "collect ps (start env c) = Inr st \<and> map_of (pipelines st) n = Some p"
  then have "pipes_ok (pipelines st)"
    using collect_inv [OF start_pipes_ok] by blast
  with a have ok: "pipe_ok p" by (auto simp: pipes_ok_def)
  then show "list_all is_methodtype (filter (\<lambda>x. x \<noteq> CLOSED) p) \<or>
      list_all is_plumbproperty (filter (\<lambda>x. x \<noteq> CLOSED) p)"
    by (simp add: filter_not_CLOSED) (simp add: pipe_ok_def)
next
  let ?p = "pipe_at (pipelines st0) n"
  assume a: "?p \<noteq> [] \<and> is_plumbproperty (last ?p)"
  then have "last ?p \<noteq> CLOSED" by (auto dest: plumbproperty_not_CLOSED)
  with a have "\<not> is_closed (pipelines st0) n" "map_of (pipelines st0) n \<noteq> Some []"
    by (auto simp: is_closed_def pipe_at_def split: option.splits)
  with a show "process_item plugin (n, PlumbMethod f) st0 = Inl (PlumbingCollision n)"
    by (simp add: process_item_def Let_def)
next
  let ?p = "pipe_at (pipelines st0) n"
  assume a: "?p \<noteq> [] \<and> is_methodtype (last ?p)"
  then have "last ?p \<noteq> CLOSED" by (auto dest: methodtype_not_CLOSED)
  with a have "\<not> is_closed (pipelines st0) n" "map_of (pipelines st0) n \<noteq> Some []"
    by (auto simp: is_closed_def pipe_at_def split: option.splits)
  moreover from a have "\<not> is_plumbproperty (last ?p)" by (cases "last ?p") simp_all
  ultimately show "process_item plugin (n, PlumbProperty g s d) st0 = Inl (PlumbingCollision n)"
    using a by (simp add: process_item_def Let_def)
qed

theorem pipeline_never_mixes_witness:
  "collect
     [\<lparr>p_name = ''A'', p_doc = None, p_dict = [(''m'', PlumbMethod (Function ''f'' None))]\<rparr>,
      \<lparr>p_name = ''B'', p_doc = None, p_dict = [(''m'', PlumbMethod (Function ''g'' None))]\<rparr>]
     (start example_env
        \<lparr>c_name = ''C'', c_doc = None,
         c_pipeline = PluginTuple
           [\<lparr>p_name = ''A'', p_doc = None, p_dict = [(''m'', PlumbMethod (Function ''f'' None))]\<rparr>,
            \<lparr>p_name = ''B'', p_doc = None, p_dict = [(''m'', PlumbMethod (Function ''g'' None))]\<rparr>],
         c_dict = Map.empty, c_inherited = Map.empty, c_meta = Map.empty\<rparr>)
   = Inr \<lparr>cls = \<lparr>c_name = ''C'', c_doc = None,
            c_pipeline = PluginTuple
              [\<lparr>p_name = ''A'', p_doc = None, p_dict = [(''m'', PlumbMethod (Function ''f'' None))]\<rparr>,
               \<lparr>p_name = ''B'', p_doc = None, p_dict = [(''m'', PlumbMethod (Function ''g'' None))]\<rparr>],
            c_dict = [''__pipeline__'' \<mapsto> ClassTuple [''A'', ''B''], ''__doc__'' \<mapsto> NoneV],
            c_inherited = Map.empty, c_meta = Map.empty\<rparr>,
          pipelines = [(''m'', [BoundMethod ''A'' (Function ''f'' None),
                                BoundMethod ''B'' (Function ''g'' None)])],
          defaulted = {}\<rparr> \<and>
   list_all is_methodtype
     (filter (\<lambda>x. x \<noteq> CLOSED)
        [BoundMethod ''A'' (Function ''f'' None), BoundMethod ''B'' (Function ''g'' None)]) \<and>
   process_item \<lparr>p_name = ''B'', p_doc = None, p_dict = []\<rparr>
     (''x'', PlumbMethod (Function ''f'' None))
     \<lparr>cls = \<lparr>c_name = ''C'', c_doc = None, c_pipeline = PluginTuple [],
              c_dict = Map.empty, c_inherited = Map.empty, c_meta = Map.empty\<rparr>,
      pipelines = [(''x'', [PlumbProperty (Function ''g'' None) NoneV NoneV])],
      defaulted = {}\<rparr>
   = Inl (PlumbingCollision ''x'') \<and>
   process_item \<lparr>p_name = ''B'', p_doc = None, p_dict = []\<rparr>
     (''m'', PlumbProperty (Function ''g'' None) NoneV NoneV)
     \<lparr>cls = \<lparr>c_name = ''C'', c_doc = None, c_pipeline = PluginTuple [],
              c_dict = Map.empty, c_inherited = Map.empty, c_meta = Map.empty\<rparr>,
      pipelines = [(''m'', [BoundMethod ''A'' (Function ''f'' None)])],
      defaulted = {}\<rparr>
   = Inl (PlumbingCollision ''m'')"
  (is "collect ?ps (start ?env ?c) = Inr ?st \<and> ?M \<and>
       process_item ?B (''x'', PlumbMethod ?f) ?st1 = _ \<and>
       process_item ?B (''m'', PlumbProperty ?g NoneV NoneV) ?st2 = _")
proof -
  have 1: "collect ?ps (start ?env ?c) = Inr ?st"
    by (simp add: eval_simps)
  have 2: "map_of (pipelines ?st) ''m''
      = Some [BoundMethod ''A'' (Function ''f'' None), BoundMethod ''B'' (Function ''g'' None)]"
    by simp
  have 3: "pipe_at (pipelines ?st1) ''x'' \<noteq> [] \<and>
      is_plumbproperty (last (pipe_at (pipelines ?st1) ''x''))"
    by (simp add: pipe_at_def)
  have 4: "pipe_at (pipelines ?st2) ''m'' \<noteq> [] \<and>
      is_methodtype (last (pipe_at (pipelines ?st2) ''m''))"
    by (simp add: pipe_at_def)
  note T1 = pipeline_never_mixes [of ?ps ?env ?c ?st "''x''"
      "[BoundMethod ''A'' (Function ''f'' None), BoundMethod ''B'' (Function ''g'' None)]"
      ?st1 ?B ?f ?g NoneV NoneV]
  note T2 = pipeline_never_mixes [of ?ps ?env ?c ?st "''m''"
      "[BoundMethod ''A'' (Function ''f'' None), BoundMethod ''B'' (Function ''g'' None)]"
      ?st2 ?B ?f ?g NoneV NoneV]
  have a: "process_item ?B (''x'', PlumbMethod ?f) ?st1 = Inl (PlumbingCollision ''x'')"
    by (rule mp [OF conjunct1 [OF conjunct2 [OF T1]] 3])
  have b: "process_item ?B (''m'', PlumbProperty ?g NoneV NoneV) ?st2 = Inl (PlumbingCollision ''m'')"
    by (rule mp [OF conjunct2 [OF conjunct2 [OF T2]] 4])
  have m: ?M by simp
  show ?thesis
    by (intro conjI) (rule 1, rule m, rule a, rule b)
qed

text \<open>
  C7, as amended. A plain attribute of a plugin (no marker, no \<^verbatim>\<open>plumbmethod\<close>, no
  \<^verbatim>\<open>plumbproperty\<close>) never changes the collector's state: it appends to no pipeline and
  leaves the class and the was-defaulted flags alone. It raises \<^verbatim>\<open>PlumbingCollision\<close>
  exactly when the pipeline of its name is closed, that is, when an earlier
  \<^verbatim>\<open>default\<close> or \<^verbatim>\<open>extend\<close> declared the name (line 203 tests this before it looks at
  the kind of the attribute); otherwise it is skipped. The first part is stated for the
  states in which every pipeline is well formed: the start state is one
  (\<open>start_pipes_ok\<close>) and every step of the collector keeps them so
  (\<open>process_item_inv\<close>, \<open>process_items_inv\<close>, \<open>collect_inv\<close>).
\<close>

theorem plain_attribute_skipped_unless_closed:
  assumes "\<not> is_extensiondecor d" "\<not> is_plumbmethod d" "\<not> is_plumbproperty d"
  shows "(pipes_ok (pipelines st) \<longrightarrow>
            process_item plugin (n, d) st =
              (if is_closed (pipelines st) n then Inl (PlumbingCollision n) else Inr st)) \<and>
         (process_item plugin (n, d) st = Inr st' \<longrightarrow> st' = st)"
proof (intro conjI impI)
  assume ok: "pipes_ok (pipelines st)"
  have "map_of (pipelines st) n \<noteq> Some []"
  proof
    assume "map_of (pipelines st) n = Some []"
    with ok have "pipe_ok []" unfolding pipes_ok_def by blast
    then show False by (simp add: pipe_ok_def)
  qed
  with assms show "process_item plugin (n, d) st =
      (if is_closed (pipelines st) n then Inl (PlumbingCollision n) else Inr st)"
    by (simp add: process_item_def Let_def)
next
  assume "process_item plugin (n, d) st = Inr st'"
  with assms show "st' = st"
    by (simp add: process_item_def Let_def split: if_splits)
qed

theorem plain_attribute_skipped_unless_closed_witness:
  "\<not> is_extensiondecor (Obj 2) \<and> \<not> is_plumbmethod (Obj 2) \<and> \<not> is_plumbproperty (Obj 2) \<and>
   process_item \<lparr>p_name = ''B'', p_doc = None, p_dict = [(''foo'', Obj 2)]\<rparr> (''foo'', Obj 2)
     \<lparr>cls = \<lparr>c_name = ''C'', c_doc = None, c_pipeline = PluginTuple [],
            c_dict = [''foo'' \<mapsto> Obj 1], c_inherited = Map.empty, c_meta = Map.empty\<rparr>,
      pipelines = [(''foo'', [CLOSED])], defaulted = {''foo''}\<rparr>
   = Inl (PlumbingCollision ''foo'') \<and>
   process_item \<lparr>p_name = ''B'', p_doc = None, p_dict = [(''foo'', Obj 2)]\<rparr> (''bar'', Obj 2)
     \<lparr>cls = \<lparr>c_name = ''C'', c_doc = None, c_pipeline = PluginTuple [],
            c_dict = [''foo'' \<mapsto> Obj 1], c_inherited = Map.empty, c_meta = Map.empty\<rparr>,
      pipelines = [(''foo'', [CLOSED])], defaulted = {''foo''}\<rparr>
   = Inr \<lparr>cls = \<lparr>c_name = ''C'', c_doc = None, c_pipeline = PluginTuple [],
            c_dict = [''foo'' \<mapsto> Obj 1], c_inherited = Map.empty, c_meta = Map.empty\<rparr>,
      pipelines = [(''foo'', [CLOSED])], defaulted = {''foo''}\<rparr>"
  (is "_ \<and> _ \<and> _ \<and> process_item ?B _ ?st = _ \<and> _")
proof -
  have h: "\<not> is_extensiondecor (Obj 2)" "\<not> is_plumbmethod (Obj 2)" "\<not> is_plumbproperty (Obj 2)"
    by simp_all
  have ok: "pipes_ok (pipelines ?st)"
    by (simp add: pipes_ok_def pipe_ok_def drop_closed_def)
  have c: "is_closed (pipelines ?st) ''foo''" "\<not> is_closed (pipelines ?st) ''bar''"
    by (simp_all add: is_closed_def)
  note T1 = plain_attribute_skipped_unless_closed [OF h, of ?st ?B "''foo''" ?st, THEN conjunct1,
      THEN mp, OF ok]
  note T2 = plain_attribute_skipped_unless_closed [OF h, of ?st ?B "''bar''" ?st, THEN conjunct1,
      THEN mp, OF ok]
  from T1 c(1) have a: "process_item ?B (''foo'', Obj 2) ?st = Inl (PlumbingCollision ''foo'')"
    by (simp only: if_True)
  from T2 c(2) have b: "process_item ?B (''bar'', Obj 2) ?st = Inr ?st"
    by (simp only: if_False)
  from h a b show ?thesis by (intro conjI)
qed

text \<open>
  The claim as first stated fails: plugin \<open>A\<close> declares \<^verbatim>\<open>foo = default(1)\<close>, plugin
  \<open>B\<close> has the plain attribute \<^verbatim>\<open>foo = 2\<close>, and composing with the order \<open>[A, B]\<close>
  raises \<^verbatim>\<open>PlumbingCollision('foo')\<close> at \<open>B\<close>'s plain attribute.
\<close>

theorem plain_attribute_collides_counterexample:
  "collect [\<lparr>p_name = ''A'', p_doc = None, p_dict = [(''foo'', default_decor (Obj 1))]\<rparr>]
     (start example_env
        \<lparr>c_name = ''C'', c_doc = None,
         c_pipeline = PluginTuple
           [\<lparr>p_name = ''A'', p_doc = None, p_dict = [(''foo'', default_decor (Obj 1))]\<rparr>,
            \<lparr>p_name = ''B'', p_doc = None, p_dict = [(''foo'', Obj 2)]\<rparr>],
         c_dict = Map.empty, c_inherited = Map.empty, c_meta = Map.empty\<rparr>)
   = Inr \<lparr>cls = \<lparr>c_name = ''C'', c_doc = None,
            c_pipeline = PluginTuple
              [\<lparr>p_name = ''A'', p_doc = None, p_dict = [(''foo'', default_decor (Obj 1))]\<rparr>,
               \<lparr>p_name = ''B'', p_doc = None, p_dict = [(''foo'', Obj 2)]\<rparr>],
            c_dict = [''__pipeline__'' \<mapsto> ClassTuple [''A'', ''B''], ''__doc__'' \<mapsto> NoneV,
                      ''foo'' \<mapsto> Obj 1],
            c_inherited = Map.empty, c_meta = Map.empty\<rparr>,
          pipelines = [(''foo'', [CLOSED])], defaulted = {''foo''}\<rparr> \<and>
   process_item \<lparr>p_name = ''B'', p_doc = None, p_dict = [(''foo'', Obj 2)]\<rparr> (''foo'', Obj 2)
     \<lparr>cls = \<lparr>c_name = ''C'', c_doc = None,
            c_pipeline = PluginTuple
              [\<lparr>p_name = ''A'', p_doc = None, p_dict = [(''foo'', default_decor (Obj 1))]\<rparr>,
               \<lparr>p_name = ''B'', p_doc = None, p_dict = [(''foo'', Obj 2)]\<rparr>],
            c_dict = [''__pipeline__'' \<mapsto> ClassTuple [''A'', ''B''], ''__doc__'' \<mapsto> NoneV,
                      ''foo'' \<mapsto> Obj 1],
            c_inherited = Map.empty, c_meta = Map.empty\<rparr>,
      pipelines = [(''foo'', [CLOSED])], defaulted = {''foo''}\<rparr>
   = Inl (PlumbingCollision ''foo'') \<and>
   Plumber_init example_env id
     \<lparr>c_name = ''C'', c_doc = None,
      c_pipeline = PluginTuple
        [\<lparr>p_name = ''A'', p_doc = None, p_dict = [(''foo'', default_decor (Obj 1))]\<rparr>,
         \<lparr>p_name = ''B'', p_doc = None, p_dict = [(''foo'', Obj 2)]\<rparr>],
      c_dict = Map.empty, c_inherited = Map.empty, c_meta = Map.empty\<rparr>
   = Inl (PlumbingCollision ''foo'')"
  by (simp add: eval_simps)

text \<open>
  C10. A class without an entry \<^verbatim>\<open>__pipeline__\<close> in its own dictionary (a subclass of
  a composed class, say, whatever it inherits) leaves \<^verbatim>\<open>Plumber.__init__\<close> as it
  entered: nothing is added, replaced or removed.
\<close>

theorem no_pipeline_no_composition:
  "c_pipeline c = NoPipeline \<Longrightarrow> Plumber_init env ord c = Inr c"
  by (simp add: Plumber_init_def)

theorem no_pipeline_no_composition_witness:
  "c_pipeline \<lparr>c_name = ''Sub'', c_doc = None, c_pipeline = NoPipeline,
      c_dict = [''m'' \<mapsto> Function ''f'' None],
      c_inherited = [''__pipeline__'' \<mapsto> Obj 0], c_meta = Map.empty\<rparr> = NoPipeline \<and>
   Plumber_init example_env id
     \<lparr>c_name = ''Sub'', c_doc = None, c_pipeline = NoPipeline,
      c_dict = [''m'' \<mapsto> Function ''f'' None],
      c_inherited = [''__pipeline__'' \<mapsto> Obj 0], c_meta = Map.empty\<rparr>
   = Inr \<lparr>c_name = ''Sub'', c_doc = None, c_pipeline = NoPipeline,
      c_dict = [''m'' \<mapsto> Function ''f'' None],
      c_inherited = [''__pipeline__'' \<mapsto> Obj 0], c_meta = Map.empty\<rparr>"
  (is "c_pipeline ?c = _ \<and> Plumber_init ?env ?ord _ = _")
proof -
  have h: "c_pipeline ?c = NoPipeline" by simp
  from h no_pipeline_no_composition [OF h, of ?env ?ord] show ?thesis by (intro conjI)
qed

section \<open>The compiled closures: properties\<close>

text \<open>
  C5. The docstring of \<^verbatim>\<open>plumbproperty\<close> gives the accessors the signature
  \<^verbatim>\<open>(plb, _next, self[, val])\<close>, as plumbed methods have. The closures that
  \<^verbatim>\<open>entrance\<close> builds call \<^verbatim>\<open>plumbattr.fget(_next.fget, self)\<close>,
  \<^verbatim>\<open>plumbattr.fset(_next.fset, self, val)\<close> and \<^verbatim>\<open>plumbattr.fdel(_next.fdel, self)\<close>:
  the accessor's first argument is the next accessor, and no plugin is passed. The
  run below shows it, next to a plumbed method, which does get its plugin first.
\<close>

theorem property_accessor_gets_no_plugin:
  "class_getattr
     \<lparr>c_name = ''C'', c_doc = None, c_pipeline = NoPipeline,
      c_dict = [''x'' \<mapsto> Property (Function ''eg'' None) (Function ''es'' None)
                          (Function ''ed'' None)],
      c_inherited = Map.empty, c_meta = Map.empty\<rparr> ''x''
   = Inr (Property (Function ''eg'' None) (Function ''es'' None) (Function ''ed'' None)) \<and>
   entrance example_env ''x''
     [PlumbProperty (Function ''g'' None) (Function ''s'' None) (Function ''d'' None),
      Property (Function ''eg'' None) (Function ''es'' None) (Function ''ed'' None)]
   = Inr (Property
       (GetEntrance
          (PlumbProperty (Function ''g'' None) (Function ''s'' None) (Function ''d'' None))
          (Property (Function ''eg'' None) (Function ''es'' None) (Function ''ed'' None)))
       (SetEntrance
          (PlumbProperty (Function ''g'' None) (Function ''s'' None) (Function ''d'' None))
          (Property (Function ''eg'' None) (Function ''es'' None) (Function ''ed'' None)))
       (DelEntrance
          (PlumbProperty (Function ''g'' None) (Function ''s'' None) (Function ''d'' None))
          (Property (Function ''eg'' None) (Function ''es'' None) (Function ''ed'' None)))) \<and>
   dispatch
     (GetEntrance
        (PlumbProperty (Function ''g'' None) (Function ''s'' None) (Function ''d'' None))
        (Property (Function ''eg'' None) (Function ''es'' None) (Function ''ed'' None)))
     [Obj 0]
   = Inr (Function ''g'' None, [Function ''eg'' None, Obj 0]) \<and>
   dispatch
     (SetEntrance
        (PlumbProperty (Function ''g'' None) (Function ''s'' None) (Function ''d'' None))
        (Property (Function ''eg'' None) (Function ''es'' None) (Function ''ed'' None)))
     [Obj 0, Obj 5]
   = Inr (Function ''s'' None, [Function ''es'' None, Obj 0, Obj 5]) \<and>
   dispatch
     (DelEntrance
        (PlumbProperty (Function ''g'' None) (Function ''s'' None) (Function ''d'' None))
        (Property (Function ''eg'' None) (Function ''es'' None) (Function ''ed'' None)))
     [Obj 0]
   = Inr (Function ''d'' None, [Function ''ed'' None, Obj 0]) \<and>
   dispatch
     (MethodEntrance (BoundMethod ''P'' (Function ''f'' None)) (Function ''ep'' None) None)
     [Obj 0]
   = Inr (Function ''f'' None, [ClassRef ''P'', Function ''ep'' None, Obj 0])"
  by (simp add: class_getattr_def)

text \<open>
  C6, as amended. For a pipeline of method objects \<open>ms\<close> and an endpoint \<open>ep\<close>,
  \<^verbatim>\<open>entrance\<close> returns a chain whose \<^verbatim>\<open>__doc__\<close> is the join, with \<^verbatim>\<open>os.linesep\<close>, of
  the layers' \<^verbatim>\<open>__doc__\<close> that are not \<^verbatim>\<open>None\<close>, from the innermost layer to the
  outermost: the endpoint's text first, the first plugin's text last (\<^verbatim>\<open>None\<close> when no
  layer has one). The \<^verbatim>\<open>__doc__\<close> of a closure plays no part in what a call of it does.
\<close>

theorem chain_doc_inner_to_outer:
  assumes "list_all is_methodtype ms"
  shows "(\<exists>r. entrance env name (ms @ [ep]) = Inr r \<and>
            doc_of env r =
              join_docs (linesep env) (present (doc_of env ep # rev (map (doc_of env) ms)))) \<and>
         dispatch (MethodEntrance plumbattr nx d) args =
           dispatch (MethodEntrance plumbattr nx d') args"
proof -
  have "\<exists>r. entrance env name (ms @ [ep]) = Inr r \<and>
           doc_of env r =
             join_docs (linesep env) (present (doc_of env ep # rev (map (doc_of env) ms)))"
    using assms
  proof (induction ms)
    case Nil
    show ?case by (cases "doc_of env ep") simp_all
  next
    case (Cons m ms)
    then obtain inner where
      inner: "entrance env name (ms @ [ep]) = Inr inner" and
      dc: "doc_of env inner =
            join_docs (linesep env) (present (doc_of env ep # rev (map (doc_of env) ms)))"
      by auto
    from Cons.prems have m: "is_methodtype m" by simp
    then have np: "\<not> is_plumbproperty m" by (cases m) simp_all
    have "entrance env name ((m # ms) @ [ep]) =
        Inr (MethodEntrance m inner
               (merge_doc (linesep env) (doc_of env inner) [doc_of env m]))"
      using inner m np by (simp add: entrance_Cons)
    moreover have "merge_doc (linesep env) (doc_of env inner) [doc_of env m] =
        join_docs (linesep env) (present (doc_of env ep # rev (map (doc_of env) (m # ms))))"
      using join_nested [of "linesep env" "present (doc_of env ep # rev (map (doc_of env) ms))"
          "doc_of env m"]
      by (simp add: merge_doc_join dc present_append del: present.simps join_docs.simps)
         (simp add: present_append [symmetric] del: present.simps join_docs.simps)
    ultimately show ?case by simp
  qed
  then show ?thesis by simp
qed

theorem chain_doc_inner_to_outer_witness:
  "list_all is_methodtype
     [BoundMethod ''A'' (Function ''f'' (Some ''first'')),
      BoundMethod ''B'' (Function ''g'' None),
      BoundMethod ''C'' (Function ''h'' (Some ''third''))] \<and>
   entrance example_env ''m''
     [BoundMethod ''A'' (Function ''f'' (Some ''first'')),
      BoundMethod ''B'' (Function ''g'' None),
      BoundMethod ''C'' (Function ''h'' (Some ''third'')),
      Function ''ep'' (Some ''end'')]
   = Inr (MethodEntrance (BoundMethod ''A'' (Function ''f'' (Some ''first'')))
       (MethodEntrance (BoundMethod ''B'' (Function ''g'' None))
          (MethodEntrance (BoundMethod ''C'' (Function ''h'' (Some ''third'')))
             (Function ''ep'' (Some ''end'')) (Some ''end/third''))
          (Some ''end/third''))
       (Some ''end/third/first'')) \<and>
   join_docs ''/'' (present [Some ''end'', Some ''third'', None, Some ''first''])
     = Some ''end/third/first''"
  (is "list_all is_methodtype ?ms \<and> entrance ?env ?n ?pipe = Inr ?r \<and> _")
proof -
  have h: "list_all is_methodtype ?ms" by simp
  from chain_doc_inner_to_outer [OF h, where env = ?env and name = ?n
      and ep = "Function ''ep'' (Some ''end'')", THEN conjunct1]
  obtain r where r: "entrance ?env ?n (?ms @ [Function ''ep'' (Some ''end'')]) = Inr r"
    and d: "doc_of ?env r = join_docs (linesep ?env)
        (present (doc_of ?env (Function ''ep'' (Some ''end'')) # rev (map (doc_of ?env) ?ms)))"
    by blast
  have e: "entrance ?env ?n ?pipe = Inr ?r" by simp
  with r have "r = ?r" by simp
  with d have "join_docs ''/'' (present [Some ''end'', Some ''third'', None, Some ''first''])
     = Some ''end/third/first''" by simp
  with h e show ?thesis by (intro conjI)
qed

text \<open>
  The claim as first stated fails on the order: with the outer layer documented
  \<open>outer\<close> and the endpoint \<open>inner\<close>, the chain's \<^verbatim>\<open>__doc__\<close> is \<open>inner/outer\<close> (the
  separator being \<open>/\<close>), not the join of the layers from the outermost to the
  innermost. A layer whose description is the empty string is joined like any other.
\<close>

theorem chain_doc_outer_first_counterexample:
  "entrance example_env ''m''
     [BoundMethod ''A'' (Function ''f'' (Some ''outer'')), Function ''ep'' (Some ''inner'')]
   = Inr (MethodEntrance (BoundMethod ''A'' (Function ''f'' (Some ''outer'')))
            (Function ''ep'' (Some ''inner'')) (Some ''inner/outer'')) \<and>
   Some ''inner/outer'' \<noteq>
     join_docs ''/''
       (present (map (doc_of example_env)
          [BoundMethod ''A'' (Function ''f'' (Some ''outer'')),
           Function ''ep'' (Some ''inner'')])) \<and>
   entrance example_env ''m''
     [BoundMethod ''A'' (Function ''f'' (Some '''')), Function ''ep'' (Some ''inner'')]
   = Inr (MethodEntrance (BoundMethod ''A'' (Function ''f'' (Some '''')))
            (Function ''ep'' (Some ''inner'')) (Some ''inner/''))"
  by simp

end
